theory Spec2Isabelle
  imports Complex_Main "HOL-Library.Sublist" "HOL-Library.Char_ord" "HOL-Library.List_Lexorder"
    "HOL-Library.Log_Nat"
begin

section \<open>Python numbers and exceptions\<close>

text \<open>
  Python's unbounded \<open>int\<close> is \<^typ>\<open>int\<close>. A Python \<open>float\<close> is an IEEE 754 double:
  \<open>Finite m e\<close> is the number \<open>m * 2^e\<close>, and it is a double when \<open>m\<close> has at most 53
  bits, \<open>e\<close> is at least -1074 and the number is below \<open>2^1024\<close> in size; the other
  floats are the two infinities and NaN. The sign of a zero is not kept: no result of the program depends on it. Strings
  are byte strings: a non-ASCII character of the sources is written as its UTF-8 bytes.
\<close>

text \<open>The exception classes the program can meet; all of them derive from \<open>Exception\<close>.\<close>

datatype error =
    RequestException
  | HTTPError
  | JSONDecodeError
  | AttributeError
  | TypeError
  | ValueError
  | OverflowError

text \<open>Sequencing of steps that may raise: the first exception leaves the block.\<close>

definition and_then :: "error + 'a \<Rightarrow> ('a \<Rightarrow> error + 'b) \<Rightarrow> error + 'b" where
  "and_then r f = (case r of Inl e \<Rightarrow> Inl e | Inr x \<Rightarrow> f x)"

text \<open>The quotient \<open>n / d\<close> for \<open>d > 0\<close>, rounded to the nearest integer, a tie to the
  even one.\<close>

definition rhe_div :: "int \<Rightarrow> int \<Rightarrow> int" where
  "rhe_div n d =
     (let q = n div d; r = n mod d
      in if 2 * r < d then q
         else if d < 2 * r then q + 1
         else if even q then q else q + 1)"

datatype pyfloat = Finite int int | PosInf | NegInf | NaN

definition is_float :: "pyfloat \<Rightarrow> bool" where
  "is_float x =
     (case x of
        Finite m e \<Rightarrow> \<bar>m\<bar> < 2 ^ 53 \<and> - 1074 \<le> e \<and> bitlen \<bar>m\<bar> + e \<le> 1024
      | _ \<Rightarrow> True)"

text \<open>The exact number \<open>m * 2^e\<close> rounded to a double, as every float operation rounds
  its exact result: to the nearest double, a tie to the one with the even significand.
  \<open>t\<close> is the exponent of the last bit kept: 53 bits, and never below the exponent -1074
  of the subnormal doubles. A significand that rounds up to \<open>2^53\<close> is halved. A result
  of \<open>2^1024\<close> or more in size is an infinity.\<close>

definition round_dyadic :: "int \<Rightarrow> int \<Rightarrow> pyfloat" where
  "round_dyadic m e =
     (if m = 0 then Finite 0 0
      else
        (let t = max (e + bitlen \<bar>m\<bar> - 53) (- 1074);
             n = (if t \<le> e then m * 2 ^ nat (e - t) else rhe_div m (2 ^ nat (t - e)));
             (n, t) = (if 53 < bitlen \<bar>n\<bar> then (n div 2, t + 1) else (n, t))
         in if 1024 < bitlen \<bar>n\<bar> + t then (if 0 < n then PosInf else NegInf)
            else Finite n t))"

fun fneg :: "pyfloat \<Rightarrow> pyfloat" where
  "fneg (Finite m e) = Finite (- m) e"
| "fneg PosInf = NegInf"
| "fneg NegInf = PosInf"
| "fneg NaN = NaN"

text \<open>\<open>x * y\<close> on floats. An overflow gives an infinity and raises nothing; zero times
  an infinity is NaN.\<close>

fun fmul :: "pyfloat \<Rightarrow> pyfloat \<Rightarrow> pyfloat" where
  "fmul NaN y = NaN"
| "fmul x NaN = NaN"
| "fmul (Finite a e) (Finite b f) = round_dyadic (a * b) (e + f)"
| "fmul (Finite a e) y = (if a = 0 then NaN else if 0 < a then y else fneg y)"
| "fmul x (Finite b f) = (if b = 0 then NaN else if 0 < b then x else fneg x)"
| "fmul PosInf y = y"
| "fmul NegInf y = fneg y"

text \<open>\<open>x + y\<close> on floats; the two infinities add up to NaN.\<close>

fun fadd :: "pyfloat \<Rightarrow> pyfloat \<Rightarrow> pyfloat" where
  "fadd NaN y = NaN"
| "fadd x NaN = NaN"
| "fadd (Finite a e) (Finite b f) =
     (let g = min e f in round_dyadic (a * 2 ^ nat (e - g) + b * 2 ^ nat (f - g)) g)"
| "fadd (Finite a e) y = y"
| "fadd x (Finite b f) = x"
| "fadd PosInf PosInf = PosInf"
| "fadd NegInf NegInf = NegInf"
| "fadd PosInf NegInf = NaN"
| "fadd NegInf PosInf = NaN"

text \<open>A value of an arithmetic expression: an \<open>int\<close> or a \<open>float\<close>.\<close>

datatype number = IntN int | FloatN pyfloat

text \<open>The conversion of an \<open>int\<close> operand that meets a \<open>float\<close>: rounded to the
  nearest double, and \<open>OverflowError\<close> ("int too large to convert to float") when
  that is no finite double.\<close>

definition float_of_int :: "int \<Rightarrow> error + pyfloat" where
  "float_of_int n =
     (case round_dyadic n 0 of Finite m e \<Rightarrow> Inr (Finite m e) | _ \<Rightarrow> Inl OverflowError)"

fun py_mul :: "number \<Rightarrow> number \<Rightarrow> error + number" where
  "py_mul (IntN a) (IntN b) = Inr (IntN (a * b))"
| "py_mul (IntN a) (FloatN y) = and_then (float_of_int a) (\<lambda>x. Inr (FloatN (fmul x y)))"
| "py_mul (FloatN x) (IntN b) = and_then (float_of_int b) (\<lambda>y. Inr (FloatN (fmul x y)))"
| "py_mul (FloatN x) (FloatN y) = Inr (FloatN (fmul x y))"

fun py_add :: "number \<Rightarrow> number \<Rightarrow> error + number" where
  "py_add (IntN a) (IntN b) = Inr (IntN (a + b))"
| "py_add (IntN a) (FloatN y) = and_then (float_of_int a) (\<lambda>x. Inr (FloatN (fadd x y)))"
| "py_add (FloatN x) (IntN b) = and_then (float_of_int b) (\<lambda>y. Inr (FloatN (fadd x y)))"
| "py_add (FloatN x) (FloatN y) = Inr (FloatN (fadd x y))"

text \<open>\<open>round(x)\<close> of Python 3: an \<open>int\<close> is returned as it is; a finite float is
  rounded to the nearest integer, a tie to the even one; an infinity raises
  \<open>OverflowError\<close> and NaN raises \<open>ValueError\<close>. The result is an \<open>int\<close>, which
  \<open>int(...)\<close> returns unchanged.\<close>

fun py_round :: "number \<Rightarrow> error + int" where
  "py_round (IntN n) = Inr n"
| "py_round (FloatN (Finite m e)) =
     Inr (if 0 \<le> e then m * 2 ^ nat e else rhe_div m (2 ^ nat (- e)))"
| "py_round (FloatN NaN) = Inl ValueError"
| "py_round (FloatN x) = Inl OverflowError"

text \<open>\<open>x >= 0\<close>, which is false of NaN.\<close>

fun num_ge0 :: "number \<Rightarrow> bool" where
  "num_ge0 (IntN n) = (0 \<le> n)"
| "num_ge0 (FloatN (Finite m e)) = (0 \<le> m)"
| "num_ge0 (FloatN PosInf) = True"
| "num_ge0 (FloatN x) = False"

fun is_number :: "number \<Rightarrow> bool" where
  "is_number (IntN n) = True"
| "is_number (FloatN x) = is_float x"

text \<open>The numbers that are no infinity and no NaN, and the real number such a one is.\<close>

fun number_finite :: "number \<Rightarrow> bool" where
  "number_finite (IntN n) = True"
| "number_finite (FloatN (Finite m e)) = True"
| "number_finite (FloatN x) = False"

fun number_value :: "number \<Rightarrow> real" where
  "number_value (IntN n) = of_int n"
| "number_value (FloatN (Finite m e)) = of_int m * 2 powi e"
| "number_value (FloatN x) = 0"

text \<open>The finite floats below \<open>2^K\<close> in size.\<close>

definition below :: "int \<Rightarrow> pyfloat \<Rightarrow> bool" where
  "below K x = (case x of Finite m e \<Rightarrow> m = 0 \<or> bitlen \<bar>m\<bar> + e \<le> K | _ \<Rightarrow> False)"

section \<open>Scoring engine (engine.py, _legacy/backend/rules.py)\<close>

text \<open>\<open>def clamp(v, lo, hi): return max(lo, min(hi, v))\<close>\<close>

definition clamp :: "int \<Rightarrow> int \<Rightarrow> int \<Rightarrow> int" where
  "clamp v lo hi = max lo (min hi v)"

text \<open>\<open>def level_from_xp(xp): return clamp(1 + (xp // 250), 1, 10)\<close>;
  \<open>//\<close> is floor division, as \<open>div\<close> on \<^typ>\<open>int\<close> is.\<close>

definition level_from_xp :: "int \<Rightarrow> int" where
  "level_from_xp xp = clamp (1 + (xp div 250)) 1 10"

record Judgement =
  xp_delta :: int
  penalty :: int
  new_xp :: int
  new_level :: int
  new_streak :: int
  new_debt :: int
  new_difficulty :: int
  verdict :: string

definition verdict_nothing :: string where
  "verdict_nothing =
     ''You executed nothing. That'' @ [CHR 0x27] @ ''s self-deception. Penalty applied.''"

definition verdict_hard :: string where
  "verdict_hard = ''You executed hard. Keep going. Next level demands more.''"

definition verdict_work :: string where
  "verdict_work = ''You did the work. No excuses. No detours.''"

definition verdict_avoided :: string where
  "verdict_avoided = ''You avoided the main goal. You pay now and later. Fix it.''"

text \<open>The catch-all of engine.py: the dash is U+2014, bytes E2 80 94.\<close>

definition verdict_bailed :: string where
  "verdict_bailed =
     ''You did something '' @ [CHR 0xE2, CHR 0x80, CHR 0x94]
       @ '' then you bailed on the rest. Not enough.''"

text \<open>The catch-all of _legacy/backend/rules.py, whose file holds the dash mis-decoded
  into three characters (U+00E2 U+20AC U+201D), eight bytes.\<close>

definition verdict_bailed_legacy :: string where
  "verdict_bailed_legacy =
     ''You did something ''
       @ [CHR 0xC3, CHR 0xA2, CHR 0xE2, CHR 0x82, CHR 0xAC, CHR 0xE2, CHR 0x80, CHR 0x9D]
       @ '' then you bailed on the rest. Not enough.''"

text \<open>The argument of \<open>round\<close> in the first line of \<open>judge_day\<close>,
  \<open>20 * completed + 10 * impacts_sum + 5 * current_difficulty\<close>, in the order Python
  evaluates it. \<open>impacts_sum\<close> is annotated \<open>float\<close>; the callers pass the \<open>int\<close> 0
  when no action is completed.\<close>

definition base_expr :: "int \<Rightarrow> number \<Rightarrow> int \<Rightarrow> error + number" where
  "base_expr completed impacts_sum current_difficulty =
     and_then (py_mul (IntN 20) (IntN completed)) (\<lambda>a.
     and_then (py_mul (IntN 10) impacts_sum) (\<lambda>b.
     and_then (py_add a b) (\<lambda>c.
     and_then (py_mul (IntN 5) (IntN current_difficulty)) (\<lambda>d.
       py_add c d))))"

text \<open>\<open>judge_day\<close> of engine.py, line by line; the keyword-only arguments in the
  order of the signature. \<open>Inl\<close> is the exception the first line raises.\<close>

definition judge_day :: "int \<Rightarrow> int \<Rightarrow> int \<Rightarrow> int \<Rightarrow> int \<Rightarrow> int \<Rightarrow> number \<Rightarrow> error + Judgement" where
  "judge_day current_xp current_streak current_debt current_difficulty completed missed impacts_sum =
     and_then (base_expr completed impacts_sum current_difficulty) (\<lambda>x.
     and_then (py_round x) (\<lambda>base_xp.
     Inr (let penalty' = 15 * missed;
              new_streak' = (if missed = 0 \<and> completed > 0 then current_streak + 1 else 0);
              streak_bonus = (if new_streak' \<ge> 3 then 5 else 0);
              xp_delta' = base_xp + streak_bonus - penalty';
              new_xp' = max 0 (current_xp + xp_delta');
              new_debt' = current_debt + missed;
              diff = current_difficulty;
              diff = (if missed \<ge> 2 then diff + 1
                      else if new_streak' \<ge> 5 then diff + 1
                      else if missed = 0 \<and> completed \<ge> 4 then diff + 1
                      else diff);
              new_difficulty' = clamp diff 1 5;
              new_level' = level_from_xp new_xp';
              verdict' = (if completed = 0 \<and> missed > 0 then verdict_nothing
                          else if missed = 0 \<and> completed \<ge> 4 then verdict_hard
                          else if missed = 0 \<and> completed > 0 then verdict_work
                          else if missed \<ge> 2 then verdict_avoided
                          else verdict_bailed)
          in \<lparr> xp_delta = xp_delta', penalty = penalty', new_xp = new_xp',
               new_level = new_level', new_streak = new_streak', new_debt = new_debt',
               new_difficulty = new_difficulty', verdict = verdict' \<rparr>)))"

text \<open>\<open>judge_day\<close> of _legacy/backend/rules.py: the same statements, its own
  catch-all text.\<close>

definition rules_judge_day :: "int \<Rightarrow> int \<Rightarrow> int \<Rightarrow> int \<Rightarrow> int \<Rightarrow> int \<Rightarrow> number \<Rightarrow> error + Judgement" where
  "rules_judge_day current_xp current_streak current_debt current_difficulty completed missed impacts_sum =
     and_then (base_expr completed impacts_sum current_difficulty) (\<lambda>x.
     and_then (py_round x) (\<lambda>base_xp.
     Inr (let penalty' = 15 * missed;
              new_streak' = (if missed = 0 \<and> completed > 0 then current_streak + 1 else 0);
              streak_bonus = (if new_streak' \<ge> 3 then 5 else 0);
              xp_delta' = base_xp + streak_bonus - penalty';
              new_xp' = max 0 (current_xp + xp_delta');
              new_debt' = current_debt + missed;
              diff = current_difficulty;
              diff = (if missed \<ge> 2 then diff + 1
                      else if new_streak' \<ge> 5 then diff + 1
                      else if missed = 0 \<and> completed \<ge> 4 then diff + 1
                      else diff);
              new_difficulty' = clamp diff 1 5;
              new_level' = level_from_xp new_xp';
              verdict' = (if completed = 0 \<and> missed > 0 then verdict_nothing
                          else if missed = 0 \<and> completed \<ge> 4 then verdict_hard
                          else if missed = 0 \<and> completed > 0 then verdict_work
                          else if missed \<ge> 2 then verdict_avoided
                          else verdict_bailed_legacy)
          in \<lparr> xp_delta = xp_delta', penalty = penalty', new_xp = new_xp',
               new_level = new_level', new_streak = new_streak', new_debt = new_debt',
               new_difficulty = new_difficulty', verdict = verdict' \<rparr>)))"

section \<open>Action heuristic generator (_legacy/backend/ai.py)\<close>

text \<open>
  A goal text is the byte string of its UTF-8 encoding. \<open>str.lower\<close> is modelled on the
  ASCII letters and \<open>str.strip\<close> on the ASCII white space; bytes from 128 on are left as
  they are. The keywords are ASCII, so \<open>k in lower\<close> is the contiguous-sublist test on
  bytes.
\<close>

definition lower_char :: "char \<Rightarrow> char" where
  "lower_char c =
     (if 65 \<le> (of_char c :: nat) \<and> (of_char c :: nat) \<le> 90
      then char_of ((of_char c :: nat) + 32) else c)"

definition lower :: "string \<Rightarrow> string" where
  "lower s = map lower_char s"

definition is_space :: "char \<Rightarrow> bool" where
  "is_space c =
     (let n = (of_char c :: nat) in (9 \<le> n \<and> n \<le> 13) \<or> (28 \<le> n \<and> n \<le> 32))"

definition strip :: "string \<Rightarrow> string" where
  "strip s = rev (dropWhile is_space (rev (dropWhile is_space s)))"

text \<open>The dictionary every proposal is: the keys \<open>"text"\<close> (the field \<open>text_of\<close>),
  \<open>"impact_weight"\<close>, \<open>"difficulty"\<close>, \<open>"non_negotiable"\<close>. The weights are the
  decimals of the source.\<close>

record action =
  text_of :: string
  impact_weight :: real
  difficulty :: int
  non_negotiable :: bool

text \<open>The closure \<open>add\<close>, which appends to the list \<open>actions\<close> of the enclosing call.\<close>

definition add :: "action list \<Rightarrow> string \<Rightarrow> real \<Rightarrow> int \<Rightarrow> action list" where
  "add actions t w d =
     actions @ [\<lparr> text_of = t, impact_weight = w, difficulty = d, non_negotiable = True \<rparr>]"

definition revenue_keywords :: "string list" where
  "revenue_keywords =
     [''mrr'', ''sales'', ''customers'', ''customer'', ''revenue'', ''sell'', ''pipeline'']"

definition build_keywords :: "string list" where
  "build_keywords = [''product'', ''mvp'', ''app'', ''build'', ''launch'', ''ship'']"

text \<open>\<open>any(k in lower for k in keywords)\<close>\<close>

definition any_in :: "string list \<Rightarrow> string \<Rightarrow> bool" where
  "any_in keywords s = list_ex (\<lambda>k. sublist k s) keywords"

definition offline_actions :: "string \<Rightarrow> int \<Rightarrow> action list" where
  "offline_actions goal_text difficulty' =
     (let goal = strip goal_text;
          lower' = lower goal;
          actions = [];
          actions =
            (if any_in revenue_keywords lower' then
               (let actions = add actions ''Contact 10 prospects (DM/email) with ONE offer. Log replies.'' 1.4 (min 3 (difficulty' + 1));
                    actions = add actions ''Improve the offer (headline + price + guarantee). Publish it.'' 1.2 difficulty';
                    actions = add actions ''Book 1 short sales call (15 min). No research-avoidance.'' 1.5 (min 3 (difficulty' + 1));
                    actions = add actions ''Ask for money: send 1 invoice/checkout link or request a deposit.'' 1.5 3
                in actions)
             else if any_in build_keywords lower' then
               (let actions = add actions ''Set a deadline: ship 1 concrete feature today. No side quests.'' 1.3 difficulty';
                    actions = add actions ''Cut 1 feature you 'want' but don't need. Commit the change.'' 1.2 difficulty';
                    actions = add actions ''Post a public update (X/LinkedIn) showing what you shipped.'' 1.1 difficulty';
                    actions = add actions ''Get 3 people to test and give feedback. Collect responses.'' 1.4 (min 3 (difficulty' + 1))
                in actions)
             else
               (let actions = add actions ''Write today's 3 deliverables in 1 sentence each. No fluff.'' 1.0 difficulty';
                    actions = add actions ''Do the most uncomfortable task first. 45-minute timer. No distractions.'' 1.4 (min 3 (difficulty' + 1));
                    actions = add actions ''Remove 1 blocker by contacting a human (not Googling).'' 1.3 (min 3 (difficulty' + 1));
                    actions = add actions ''Ship something visible: post/commit/demo. Proof > intention.'' 1.2 difficulty'
                in actions));
          actions = take 5 actions
      in if length actions < 3
         then actions @ [\<lparr> text_of = ''Ship a result you can show publicly.'', impact_weight = 1.2,
                            difficulty = difficulty', non_negotiable = True \<rparr>]
         else actions)"

section \<open>Generation adapter (_legacy/backend/ai.py)\<close>

text \<open>The values \<open>r.json()\<close> and \<open>json.loads\<close> return.\<close>

datatype json =
    JNull
  | JBool bool
  | JInt int
  | JFloat real
  | JStr string
  | JArr "json list"
  | JObj "(string \<times> json) list"

text \<open>\<open>x.get(key, default)\<close>: only a \<open>dict\<close> has the method.\<close>

fun py_get :: "json \<Rightarrow> string \<Rightarrow> json \<Rightarrow> error + json" where
  "py_get (JObj kvs) k dflt = Inr (case map_of kvs k of None \<Rightarrow> dflt | Some v \<Rightarrow> v)"
| "py_get _ k dflt = Inl AttributeError"

text \<open>\<open>for x in v\<close>: a list gives its items, a \<open>dict\<close> its keys, a string its
  characters (here its bytes, each a string again); the other values are not iterable.\<close>

fun py_iter :: "json \<Rightarrow> error + json list" where
  "py_iter (JArr xs) = Inr xs"
| "py_iter (JObj kvs) = Inr (map (\<lambda>kv. JStr (fst kv)) kvs)"
| "py_iter (JStr s) = Inr (map (\<lambda>c. JStr [c]) s)"
| "py_iter _ = Inl TypeError"

text \<open>What the program does not hold: the environment variable, the outcome of the one
  HTTP request (as a function of what the request is built from: the key, the goal, the
  difficulty and the history), and the library functions \<open>json.loads\<close>, \<open>str\<close>,
  \<open>float\<close> and \<open>int\<close> on JSON values.\<close>

record response =
  status_code :: int
  json_body :: "error + json"

record world =
  getenv_api_key :: "string option"
  post :: "string \<Rightarrow> string \<Rightarrow> int \<Rightarrow> string \<Rightarrow> error + response"
  json_loads :: "string \<Rightarrow> error + json"
  py_str :: "json \<Rightarrow> string"
  py_float :: "json \<Rightarrow> error + real"
  py_int :: "json \<Rightarrow> error + int"

text \<open>\<open>r.raise_for_status()\<close> of the requests library: a 4xx or 5xx status raises.\<close>

definition raise_for_status :: "response \<Rightarrow> error + unit" where
  "raise_for_status r =
     (if 400 \<le> status_code r \<and> status_code r < 600 then Inl HTTPError else Inr ())"

text \<open>The inner loop \<open>for c in item.get("content", [])\<close>, \<open>txt\<close> threaded through.\<close>

fun content_loop :: "string \<Rightarrow> json list \<Rightarrow> error + string" where
  "content_loop txt [] = Inr txt"
| "content_loop txt (c # cs) =
     and_then (py_get c ''type'' JNull) (\<lambda>t.
       if t = JStr ''output_text'' \<or> t = JStr ''text'' then
         and_then (py_get c ''text'' (JStr [])) (\<lambda>v.
           case v of JStr s \<Rightarrow> content_loop (txt @ s) cs | _ \<Rightarrow> Inl TypeError)
       else content_loop txt cs)"

text \<open>The outer loop \<open>for item in data.get("output", [])\<close>.\<close>

fun output_loop :: "string \<Rightarrow> json list \<Rightarrow> error + string" where
  "output_loop txt [] = Inr txt"
| "output_loop txt (item # items) =
     and_then (py_get item ''type'' JNull) (\<lambda>t.
       if t = JStr ''message'' then
         and_then (py_get item ''content'' (JArr [])) (\<lambda>content.
         and_then (py_iter content) (\<lambda>cs.
         and_then (content_loop txt cs) (\<lambda>txt'. output_loop txt' items)))
       else output_loop txt items)"

text \<open>\<open>re.search(r"\[.*\]", txt, flags=re.S)\<close> and \<open>m.group(0)\<close>: from the first
  opening bracket to the last closing bracket behind it, if there is one.\<close>

definition re_search_brackets :: "string \<Rightarrow> string option" where
  "re_search_brackets txt =
     (let rest = dropWhile (\<lambda>c. c \<noteq> CHR 0x5B) txt
      in if CHR 0x5D \<in> set rest
         then Some (rev (dropWhile (\<lambda>c. c \<noteq> CHR 0x5D) (rev rest)))
         else None)"

text \<open>The loop \<open>for a in arr\<close> that builds \<open>cleaned\<close>.\<close>

fun clean_loop :: "world \<Rightarrow> action list \<Rightarrow> json list \<Rightarrow> error + action list" where
  "clean_loop w cleaned [] = Inr cleaned"
| "clean_loop w cleaned (a # rest) =
     and_then (py_get a ''text'' (JStr [])) (\<lambda>t.
     and_then (py_get a ''impact_weight'' (JFloat 1.0)) (\<lambda>iw.
     and_then (py_float w iw) (\<lambda>iw'.
     and_then (py_get a ''difficulty'' (JInt 2)) (\<lambda>d.
     and_then (py_int w d) (\<lambda>d'.
       clean_loop w
         (cleaned @ [\<lparr> text_of = take 300 (strip (py_str w t)), impact_weight = iw',
                        difficulty = d', non_negotiable = True \<rparr>])
         rest)))))"

text \<open>The \<open>try\<close> block up to \<open>txt\<close>: the request, its status, its body, the text parts.\<close>

definition fetch_text :: "world \<Rightarrow> string \<Rightarrow> string \<Rightarrow> int \<Rightarrow> string \<Rightarrow> error + string" where
  "fetch_text w api_key goal_text difficulty' history =
     and_then (post w api_key goal_text difficulty' history) (\<lambda>r.
     and_then (raise_for_status r) (\<lambda>_.
     and_then (json_body r) (\<lambda>data.
     and_then (py_get data ''output'' (JArr [])) (\<lambda>out.
     and_then (py_iter out) (\<lambda>items.
       output_loop [] items)))))"

text \<open>From \<open>json.loads(m.group(0))\<close> to \<open>cleaned = cleaned[:5]\<close>.\<close>

definition cleaned_items :: "world \<Rightarrow> string \<Rightarrow> error + action list" where
  "cleaned_items w m =
     and_then (json_loads w m) (\<lambda>arr.
     and_then (py_iter arr) (\<lambda>items.
     and_then (clean_loop w [] items) (\<lambda>cleaned.
       Inr (take 5 cleaned))))"

text \<open>The whole \<open>try\<close> block, with its two early returns of the offline list.\<close>

definition try_block :: "world \<Rightarrow> string \<Rightarrow> string \<Rightarrow> int \<Rightarrow> string \<Rightarrow> error + action list" where
  "try_block w api_key goal_text difficulty' history =
     and_then (fetch_text w api_key goal_text difficulty' history) (\<lambda>txt.
       case re_search_brackets txt of
         None \<Rightarrow> Inr (offline_actions goal_text difficulty')
       | Some m \<Rightarrow>
           and_then (cleaned_items w m) (\<lambda>cleaned.
             if length cleaned < 3 then Inr (offline_actions goal_text difficulty')
             else Inr cleaned))"

text \<open>\<open>generate_actions\<close>: \<open>Inl\<close> would be an exception that leaves the function;
  \<open>except Exception\<close> turns every exception of the block into the offline list.\<close>

definition generate_actions :: "world \<Rightarrow> string \<Rightarrow> int \<Rightarrow> string \<Rightarrow> error + action list" where
  "generate_actions w goal_text difficulty' history =
     (let api_key = strip (case getenv_api_key w of None \<Rightarrow> [] | Some v \<Rightarrow> v)
      in if api_key = [] then Inr (offline_actions goal_text difficulty')
         else (case try_block w api_key goal_text difficulty' history of
                 Inl e \<Rightarrow> Inr (offline_actions goal_text difficulty')
               | Inr acts \<Rightarrow> Inr acts))"

section \<open>Storage and the generation request (engine.py, streamlit_app.py, _legacy/backend/main.py)\<close>

text \<open>
  The three tables of \<open>SCHEMA\<close>. \<open>users\<close> has the primary key \<open>id\<close> and is a map from
  it; \<open>actions\<close> and \<open>daily_results\<close> are the lists of their rows in \<open>rowid\<close> order,
  which is the order of insertion since no row is ever deleted. An action row extends a
  proposal by the columns \<open>id\<close>, \<open>user_id\<close>, \<open>date\<close>, \<open>completed\<close> and
  \<open>completed_at\<close>; the column \<open>non_negotiable\<close>, always written as 1, is \<open>True\<close>.
  Identifiers drawn by \<open>uuid.uuid4()\<close> are taken to be new, so that no insertion fails
  on a primary key. Where main.py, streamlit_app.py and frontend/app.py write a quote
  with a backslash before it outside a string, the plain quote is read.
\<close>

record user_row =
  user_created_at :: string
  user_goal_text :: string
  user_level :: int
  user_xp :: int
  user_streak :: int
  user_debt :: int
  user_difficulty :: int

record action_row = action +
  row_id :: string
  row_user_id :: string
  row_date :: string
  row_completed :: "int option"
  row_completed_at :: "string option"

record result_row =
  res_id :: string
  res_user_id :: string
  res_date :: string
  res_xp_delta :: int
  res_penalty :: int
  res_verdict_text :: string
  res_created_at :: string

record db =
  db_users :: "string \<rightharpoonup> user_row"
  db_actions :: "action_row list"
  db_daily_results :: "result_row list"

text \<open>\<open>get_user\<close>: \<open>SELECT * FROM users WHERE id=?\<close>\<close>

definition get_user :: "db \<Rightarrow> string \<Rightarrow> user_row option" where
  "get_user s uid = db_users s uid"

text \<open>\<open>upsert_user\<close> of engine.py: \<open>INSERT OR IGNORE\<close> with the column defaults, then
  the update of the goal; \<open>now\<close> is what \<open>now_iso()\<close> returns.\<close>

definition upsert_user :: "string \<Rightarrow> db \<Rightarrow> string \<Rightarrow> string \<Rightarrow> db" where
  "upsert_user now s uid goal_text =
     (let u = (case db_users s uid of
                 None \<Rightarrow> \<lparr> user_created_at = now, user_goal_text = strip goal_text, user_level = 1,
                            user_xp = 0, user_streak = 0, user_debt = 0, user_difficulty = 1 \<rparr>
               | Some u \<Rightarrow> u)
      in s\<lparr> db_users := (db_users s)(uid \<mapsto> u\<lparr> user_goal_text := strip goal_text \<rparr>) \<rparr>)"

text \<open>\<open>list_actions\<close>, and the same query written out in main.py:
  \<open>SELECT * FROM actions WHERE user_id=? AND date=? ORDER BY rowid\<close>\<close>

definition list_actions :: "db \<Rightarrow> string \<Rightarrow> string \<Rightarrow> action_row list" where
  "list_actions s uid day = filter (\<lambda>r. row_user_id r = uid \<and> row_date r = day) (db_actions s)"

text \<open>\<open>history\<close>: \<open>... FROM daily_results WHERE user_id=? ORDER BY date DESC LIMIT ?\<close>.
  Dates are ISO strings, compared as byte strings.\<close>

definition history_rows :: "db \<Rightarrow> string \<Rightarrow> nat \<Rightarrow> result_row list" where
  "history_rows s uid limit =
     take limit (rev (sort_key res_date (filter (\<lambda>r. res_user_id r = uid) (db_daily_results s))))"

text \<open>Decimal digits of an integer, as an f-string writes it.\<close>

fun digits :: "nat \<Rightarrow> string" where
  "digits n = (if n < 10 then [char_of (48 + n)] else digits (n div 10) @ [char_of (48 + n mod 10)])"

definition show_int :: "int \<Rightarrow> string" where
  "show_int i = (if i < 0 then CHR ''-'' # digits (nat (- i)) else digits (nat i))"

text \<open>\<open>sep.join(parts)\<close>\<close>

fun join :: "string \<Rightarrow> string list \<Rightarrow> string" where
  "join sep [] = []"
| "join sep [x] = x"
| "join sep (x # y # ys) = x @ sep @ join sep (y # ys)"

text \<open>The history summary \<open>"; ".join([f"{date}: xp\<Delta>={xp_delta}, pen={penalty}" ...])\<close>;
  \<open>delta\<close> is the bytes the file holds for the Greek letter.\<close>

definition history_summary :: "string \<Rightarrow> result_row list \<Rightarrow> string" where
  "history_summary delta rows =
     join ''; '' (map (\<lambda>r. res_date r @ '': xp'' @ delta @ ''='' @ show_int (res_xp_delta r)
                              @ '', pen='' @ show_int (res_penalty r)) rows)"

text \<open>\<open>insert_actions\<close> of engine.py: at most five rows, each with a new
  \<open>uuid.uuid4()\<close>; \<open>uuids\<close> gives the identifiers in the order they are drawn.\<close>

definition insert_actions :: "(nat \<Rightarrow> string) \<Rightarrow> db \<Rightarrow> string \<Rightarrow> string \<Rightarrow> action list \<Rightarrow> db" where
  "insert_actions uuids s uid day acts =
     s\<lparr> db_actions := db_actions s @
          map (\<lambda>(i, a). \<lparr> text_of = take 300 (strip (text_of a)), impact_weight = impact_weight a,
                           difficulty = difficulty a, non_negotiable = True, row_id = uuids i,
                           row_user_id = uid, row_date = day, row_completed = None,
                           row_completed_at = None \<rparr>)
              (enumerate 0 (take 5 acts)) \<rparr>"

text \<open>The session state of the Streamlit script that the Today tab reads and writes, and
  the notice the button shows.\<close>

record session =
  ss_user_id :: string
  ss_today_actions :: "action_row list"
  ss_today :: string

datatype notice = Warning string | Success string

text \<open>The Today tab of streamlit_app.py when "Generate today's actions" is pressed.
  \<open>gen\<close> is \<open>generate_actions\<close> of the module \<open>ai_actions\<close>, which the script
  imports and which is not among the sources: any function to a list of proposals. The
  result is \<open>None\<close> when the script stops at \<open>st.stop()\<close>.\<close>

definition generate_button ::
  "(string \<Rightarrow> int \<Rightarrow> string \<Rightarrow> action list) \<Rightarrow> (nat \<Rightarrow> string) \<Rightarrow> db \<Rightarrow> session
     \<Rightarrow> (session \<times> notice) option \<times> db" where
  "generate_button gen uuids s ss =
     (let uid = ss_user_id ss
      in case get_user s uid of
           None \<Rightarrow> (None, s)
         | Some u \<Rightarrow>
             (let existing = list_actions s uid (ss_today ss);
                  ss = (if existing \<noteq> [] \<and> ss_today_actions ss = []
                        then ss\<lparr> ss_today_actions := existing \<rparr> else ss);
                  existing2 = list_actions s uid (ss_today ss)
              in if existing2 \<noteq> [] then
                   (Some (ss\<lparr> ss_today_actions := existing2 \<rparr>,
                          Warning ''Already generated for today. You don't get a re-roll.''), s)
                 else
                   (let hist = history_rows s uid 7;
                        hist_str = history_summary [CHR 0xCE, CHR 0x94] hist;
                        acts = gen (user_goal_text u) (user_difficulty u) hist_str;
                        s' = insert_actions uuids s uid (ss_today ss) acts
                    in (Some (ss\<lparr> ss_today_actions := list_actions s' uid (ss_today ss) \<rparr>,
                              Success ''Actions generated. They are non-negotiable.''), s'))))"

text \<open>\<open>set_action_completion\<close>:
  \<open>UPDATE actions SET completed=?, completed_at=? WHERE id=?\<close>\<close>

definition set_action_completion :: "string \<Rightarrow> db \<Rightarrow> string \<Rightarrow> bool \<Rightarrow> db" where
  "set_action_completion now s action_id c =
     s\<lparr> db_actions :=
          map (\<lambda>r. if row_id r = action_id
                    then r\<lparr> row_completed := Some (if c then 1 else 0), row_completed_at := Some now \<rparr>
                    else r)
              (db_actions s) \<rparr>"

text \<open>\<open>upsert_daily_result\<close>: the first row of the user and day is overwritten, or a
  new row is inserted.\<close>

definition upsert_daily_result :: "string \<Rightarrow> string \<Rightarrow> db \<Rightarrow> string \<Rightarrow> string \<Rightarrow> Judgement \<Rightarrow> db" where
  "upsert_daily_result now new_id s uid day j =
     (case filter (\<lambda>r. res_user_id r = uid \<and> res_date r = day) (db_daily_results s) of
        existing # _ \<Rightarrow>
          s\<lparr> db_daily_results :=
               map (\<lambda>r. if res_id r = res_id existing
                         then r\<lparr> res_xp_delta := xp_delta j, res_penalty := penalty j,
                                res_verdict_text := verdict j, res_created_at := now \<rparr>
                         else r)
                   (db_daily_results s) \<rparr>
      | [] \<Rightarrow>
          s\<lparr> db_daily_results := db_daily_results s @
               [\<lparr> res_id = new_id, res_user_id = uid, res_date = day, res_xp_delta = xp_delta j,
                  res_penalty = penalty j, res_verdict_text = verdict j, res_created_at = now \<rparr>] \<rparr>)"

text \<open>\<open>update_user_stats\<close>:
  \<open>UPDATE users SET xp=?, level=?, streak=?, debt=?, difficulty=? WHERE id=?\<close>\<close>

definition update_user_stats :: "db \<Rightarrow> string \<Rightarrow> Judgement \<Rightarrow> db" where
  "update_user_stats s uid j =
     (case db_users s uid of
        None \<Rightarrow> s
      | Some u \<Rightarrow>
          s\<lparr> db_users := (db_users s)(uid \<mapsto>
               u\<lparr> user_xp := new_xp j, user_level := new_level j, user_streak := new_streak j,
                  user_debt := new_debt j, user_difficulty := new_difficulty j \<rparr>) \<rparr>)"

text \<open>\<open>sum(float(a["impact_weight"]) for a in actions2 if a["completed"] == 1)\<close>: the
  \<open>int\<close> 0 when no weight is summed, else a float; \<open>fsum\<close> is the float the builtin
  \<open>sum\<close> gives for the stored weights, whose rounding depends on the version of
  Python.\<close>

definition impacts_total :: "(real list \<Rightarrow> pyfloat) \<Rightarrow> real list \<Rightarrow> number" where
  "impacts_total fsum ws = (if ws = [] then IntN 0 else FloatN (fsum ws))"

text \<open>The Today tab of streamlit_app.py when "Submit check-in (judgement)" is pressed.
  \<open>checked\<close> gives the value of the checkbox of each listed action, by its id. The
  result is \<open>None\<close> when the script stops before the button, when the button is not
  drawn because the session lists no action, or when \<open>judge_day\<close> raises: then the
  completions, each written in a transaction of its own, stay.\<close>

definition submit_checkin ::
  "(real list \<Rightarrow> pyfloat) \<Rightarrow> string \<Rightarrow> string \<Rightarrow> (string \<Rightarrow> bool) \<Rightarrow> db \<Rightarrow> session
     \<Rightarrow> Judgement option \<times> db" where
  "submit_checkin fsum now new_id checked s ss =
     (let uid = ss_user_id ss
      in case get_user s uid of
           None \<Rightarrow> (None, s)
         | Some u \<Rightarrow>
             (let existing = list_actions s uid (ss_today ss);
                  ss = (if existing \<noteq> [] \<and> ss_today_actions ss = []
                        then ss\<lparr> ss_today_actions := existing \<rparr> else ss)
              in if ss_today_actions ss = [] then (None, s)
                 else
                   (let updates = map (\<lambda>a. (row_id a, checked (row_id a))) (ss_today_actions ss);
                        s1 = fold (\<lambda>(action_id, c) t. set_action_completion now t action_id c) updates s;
                        actions2 = list_actions s1 uid (ss_today ss);
                        completed = int (length (filter (\<lambda>a. row_completed a = Some 1) actions2));
                        missed = int (length (filter (\<lambda>a. row_completed a = Some 0) actions2));
                        impacts_sum = impacts_total fsum
                          (map impact_weight (filter (\<lambda>a. row_completed a = Some 1) actions2))
                    in case get_user s1 uid of
                         None \<Rightarrow> (None, s1)
                       | Some u2 \<Rightarrow>
                           (case judge_day (user_xp u2) (user_streak u2) (user_debt u2)
                                   (user_difficulty u2) completed missed impacts_sum of
                              Inl e \<Rightarrow> (None, s1)
                            | Inr j \<Rightarrow>
                                (let s2 = upsert_daily_result now new_id s1 uid (ss_today ss) j;
                                     s3 = update_user_stats s2 uid j
                                 in (Some j, s3))))))"

text \<open>The endpoints of main.py answer with a value or raise an \<open>HTTPException\<close>; an
  exception that leaves the \<open>with get_conn()\<close> block leaves the database as it was.\<close>

datatype http_exception = HTTPException int string

text \<open>\<open>create_user\<close> of main.py, \<open>req\<close> already validated.\<close>

definition create_user :: "string \<Rightarrow> db \<Rightarrow> string \<Rightarrow> string \<Rightarrow> (http_exception + string) \<times> db" where
  "create_user now s uid goal_text =
     (case db_users s uid of
        Some existing \<Rightarrow> (Inl (HTTPException 409 ''User already exists.''), s)
      | None \<Rightarrow>
          (Inr uid,
           s\<lparr> db_users := (db_users s)(uid \<mapsto>
                \<lparr> user_created_at = now, user_goal_text = strip goal_text, user_level = 1,
                  user_xp = 0, user_streak = 0, user_debt = 0, user_difficulty = 1 \<rparr>) \<rparr>))"

text \<open>\<open>generate_today\<close> of main.py; \<open>today\<close> is what \<open>today_str()\<close> returns. The
  loop inserts one row for every proposal. An exception out of \<open>generate_actions\<close>
  would reach the framework as a server error.\<close>

definition generate_today ::
  "world \<Rightarrow> (nat \<Rightarrow> string) \<Rightarrow> string \<Rightarrow> db \<Rightarrow> string
     \<Rightarrow> (http_exception + string \<times> action_row list) \<times> db" where
  "generate_today w uuids today s uid =
     (let d = today
      in case db_users s uid of
           None \<Rightarrow> (Inl (HTTPException 404 ''User not found.''), s)
         | Some u \<Rightarrow>
             (let existing = list_actions s uid d
              in if existing \<noteq> [] then (Inr (d, existing), s)
                 else
                   (let hist_rows = history_rows s uid 7;
                        history = history_summary [CHR 0xC3, CHR 0x8E, CHR 0xE2, CHR 0x80, CHR 0x9D] hist_rows
                    in case generate_actions w (user_goal_text u) (user_difficulty u) history of
                         Inl e \<Rightarrow> (Inl (HTTPException 500 ''Internal Server Error''), s)
                       | Inr acts \<Rightarrow>
                           (let s' = s\<lparr> db_actions := db_actions s @
                                       map (\<lambda>(i, a). \<lparr> text_of = text_of a, impact_weight = impact_weight a,
                                                        difficulty = difficulty a, non_negotiable = True,
                                                        row_id = uuids i, row_user_id = uid, row_date = d,
                                                        row_completed = None, row_completed_at = None \<rparr>)
                                           (enumerate 0 acts) \<rparr>
                            in (Inr (d, list_actions s' uid d), s')))))"

text \<open>\<open>checkin\<close> of main.py. An entry of \<open>action_updates\<close> is read as the id it names
  and the truth value of its \<open>completed\<close>; an id that is not one of today's actions is
  skipped. The judgement is that of rules.py. The answer carries the date, the two
  counts, the judgement and the rows read back. When \<open>judge_day\<close> raises, nothing is
  committed and the framework answers with a server error.\<close>

definition checkin ::
  "(real list \<Rightarrow> pyfloat) \<Rightarrow> string \<Rightarrow> string \<Rightarrow> string \<Rightarrow> db \<Rightarrow> string \<Rightarrow> (string \<times> bool) list
     \<Rightarrow> (http_exception + string \<times> int \<times> int \<times> Judgement \<times> action_row list) \<times> db" where
  "checkin fsum now new_id today s uid action_updates =
     (let d = today
      in case db_users s uid of
           None \<Rightarrow> (Inl (HTTPException 404 ''User not found.''), s)
         | Some u \<Rightarrow>
             (let acts = list_actions s uid d
              in if acts = [] then
                   (Inl (HTTPException 400 ''No actions for today. Call /generate_today first.''), s)
                 else
                   (let action_map = map row_id acts;
                        s1 = fold (\<lambda>(aid, c) t. if aid \<notin> set action_map then t
                                                 else set_action_completion now t aid c)
                               action_updates s;
                        actions2 = list_actions s1 uid d;
                        completed = int (length (filter (\<lambda>a. row_completed a = Some 1) actions2));
                        missed = int (length (filter (\<lambda>a. row_completed a = Some 0) actions2));
                        impacts_sum = impacts_total fsum
                          (map impact_weight (filter (\<lambda>a. row_completed a = Some 1) actions2))
                    in case rules_judge_day (user_xp u) (user_streak u) (user_debt u)
                              (user_difficulty u) completed missed impacts_sum of
                         Inl e \<Rightarrow> (Inl (HTTPException 500 ''Internal Server Error''), s)
                       | Inr j \<Rightarrow>
                           (let s2 = upsert_daily_result now new_id s1 uid d j;
                                s3 = update_user_stats s2 uid j
                            in (Inr (d, completed, missed, j, actions2), s3)))))"

text \<open>Referential integrity, the \<open>FOREIGN KEY(user_id) REFERENCES users(id)\<close> of
  backend/db.py: every action row belongs to a stored user.\<close>

definition actions_have_users :: "db \<Rightarrow> bool" where
  "actions_have_users s = (\<forall>r \<in> set (db_actions s). row_user_id r \<in> dom (db_users s))"

definition empty_db :: db where
  "empty_db = \<lparr> db_users = Map.empty, db_actions = [], db_daily_results = [] \<rparr>"

text \<open>The states of the database: it starts empty, and the only writers are the three
  buttons of streamlit_app.py and the three writing endpoints of main.py.\<close>

inductive reachable :: "db \<Rightarrow> bool" where
  reachable_empty: "reachable empty_db"
| reachable_upsert_user: "reachable s \<Longrightarrow> reachable (upsert_user now s uid g)"
| reachable_generate_button: "reachable s \<Longrightarrow> reachable (snd (generate_button gen uuids s ss))"
| reachable_submit_checkin: "reachable s \<Longrightarrow> reachable (snd (submit_checkin fsum now nid checked s ss))"
| reachable_create_user: "reachable s \<Longrightarrow> reachable (snd (create_user now s uid g))"
| reachable_generate_today: "reachable s \<Longrightarrow> reachable (snd (generate_today w uuids day s uid))"
| reachable_checkin: "reachable s \<Longrightarrow> reachable (snd (checkin fsum now nid day s uid updates))"

section \<open>Example environments and states\<close>

text \<open>Stand-ins for \<open>str\<close>, \<open>float\<close> and \<open>int\<close> on the JSON values they are
  applied to in the examples.\<close>

definition stub_str :: "json \<Rightarrow> string" where
  "stub_str j = (case j of JStr s \<Rightarrow> s | _ \<Rightarrow> ''None'')"

definition stub_float :: "json \<Rightarrow> error + real" where
  "stub_float j = (case j of JFloat r \<Rightarrow> Inr r | JInt n \<Rightarrow> Inr (of_int n) | _ \<Rightarrow> Inl TypeError)"

definition stub_int :: "json \<Rightarrow> error + int" where
  "stub_int j = (case j of JInt n \<Rightarrow> Inr n | _ \<Rightarrow> Inl TypeError)"

text \<open>Four environments: a blank key; a key and no network; a key and a server error;
  a key and a reply whose array holds two items.\<close>

definition world_no_key :: world where
  "world_no_key =
     \<lparr> getenv_api_key = Some ''  '', post = (\<lambda>k g d h. Inl RequestException),
       json_loads = (\<lambda>s. Inl JSONDecodeError), py_str = stub_str, py_float = stub_float,
       py_int = stub_int \<rparr>"

definition world_network_down :: world where
  "world_network_down = world_no_key \<lparr> getenv_api_key := Some ''sk-test'' \<rparr>"

definition world_server_error :: world where
  "world_server_error =
     world_network_down \<lparr> post := (\<lambda>k g d h. Inr \<lparr> status_code = 500, json_body = Inl JSONDecodeError \<rparr>) \<rparr>"

definition reply_body :: json where
  "reply_body =
     JObj [(''output'',
       JArr [JObj [(''type'', JStr ''message''),
                   (''content'', JArr [JObj [(''type'', JStr ''output_text''),
                                             (''text'', JStr ''Here: [one, two] done'')]])]])]"

definition world_short_reply :: world where
  "world_short_reply =
     world_network_down
       \<lparr> post := (\<lambda>k g d h. Inr \<lparr> status_code = 200, json_body = Inr reply_body \<rparr>),
         json_loads := (\<lambda>s. Inr (JArr [JObj [(''text'', JStr '' Call one customer '')],
                                        JObj [(''text'', JStr ''Send one invoice''), (''difficulty'', JInt 3)]])) \<rparr>"

text \<open>A database with one user, one action of the day before and two of the day.\<close>

definition sample_db :: db where
  "sample_db =
     \<lparr> db_users = [''founder'' \<mapsto>
          \<lparr> user_created_at = ''2026-11-02T08:00:00Z'', user_goal_text = ''Get 10 paying customers'',
            user_level = 1, user_xp = 0, user_streak = 0, user_debt = 0, user_difficulty = 1 \<rparr>],
       db_actions =
         [\<lparr> text_of = ''Improve the offer (headline + price + guarantee). Publish it.'',
            impact_weight = 1.2, difficulty = 1, non_negotiable = True, row_id = ''a1'',
            row_user_id = ''founder'', row_date = ''2026-11-02'', row_completed = Some 1,
            row_completed_at = Some ''2026-11-02T18:00:00Z'' \<rparr>,
          \<lparr> text_of = ''Contact 10 prospects (DM/email) with ONE offer. Log replies.'',
            impact_weight = 1.4, difficulty = 2, non_negotiable = True, row_id = ''b1'',
            row_user_id = ''founder'', row_date = ''2026-11-03'', row_completed = None,
            row_completed_at = None \<rparr>,
          \<lparr> text_of = ''Ask for money: send 1 invoice/checkout link or request a deposit.'',
            impact_weight = 1.5, difficulty = 3, non_negotiable = True, row_id = ''b2'',
            row_user_id = ''founder'', row_date = ''2026-11-03'', row_completed = None,
            row_completed_at = None \<rparr>],
       db_daily_results = [] \<rparr>"

text \<open>The float sum of the weights of a check-in that completes the one action of
  weight 1.4: the double 1.4, which is \<open>6305039478318694 * 2^-52\<close>.\<close>

definition sample_sum :: "real list \<Rightarrow> pyfloat" where
  "sample_sum ws = Finite 6305039478318694 (- 52)"

text \<open>The database after a user was created and \<open>generate_today\<close> served them once.\<close>

definition sample_generated :: db where
  "sample_generated =
     snd (generate_today world_no_key digits ''2026-11-03''
            (snd (create_user ''2026-11-03T08:00:00Z'' empty_db ''founder'' ''Get 10 paying customers''))
            ''founder'')"

section \<open>Properties of Python's numbers\<close>

lemma and_then_Inl [simp]: "and_then (Inl e) f = Inl e"
  by (simp add: and_then_def)

lemma and_then_Inr [simp]: "and_then (Inr x) f = f x"
  by (simp add: and_then_def)

lemma rhe_div_near:
  assumes "0 < d"
  shows "\<bar>real_of_int (rhe_div n d) - real_of_int n / real_of_int d\<bar> \<le> 1 / 2"
proof -
  define q where "q = n div d"
  define r where "r = n mod d"
  define f where "f = real_of_int r / real_of_int d"
  have n: "n = d * q + r" and r0: "0 \<le> r" and rd: "r < d"
    using assms by (simp_all add: q_def r_def)
  have x: "real_of_int n / real_of_int d = real_of_int q + f"
    using assms by (simp add: n f_def field_simps)
  have f: "0 \<le> f" "f < 1"
    using assms r0 rd by (simp_all add: f_def)
  consider "2 * r < d" | "d < 2 * r" | "2 * r = d" by linarith
  then show ?thesis
  proof cases
    case 1
    then have "f < 1 / 2"
      using assms unfolding f_def by (simp add: field_simps | linarith)+
    moreover have "rhe_div n d = q"
      using 1 by (simp add: rhe_div_def Let_def q_def[symmetric] r_def[symmetric])
    ultimately show ?thesis
      using f unfolding x by simp
  next
    case 2
    then have "1 / 2 < f"
      using assms unfolding f_def by (simp add: field_simps | linarith)+
    moreover have "rhe_div n d = q + 1"
      using 2 by (simp add: rhe_div_def Let_def q_def[symmetric] r_def[symmetric])
    ultimately show ?thesis
      using f unfolding x by simp
  next
    case 3
    then have "real_of_int d = 2 * real_of_int r"
      by (metis of_int_mult of_int_numeral)
    then have h: "f = 1 / 2"
      using assms unfolding f_def by simp
    have "rhe_div n d = q \<or> rhe_div n d = q + 1"
      using 3 by (simp add: rhe_div_def Let_def q_def[symmetric] r_def[symmetric])
    then show ?thesis
      unfolding x h by auto
  qed
qed

lemma rhe_div_tie:
  assumes "0 < d"
    and "\<bar>real_of_int (rhe_div n d) - real_of_int n / real_of_int d\<bar> = 1 / 2"
  shows "even (rhe_div n d)"
proof -
  define q where "q = n div d"
  define r where "r = n mod d"
  define f where "f = real_of_int r / real_of_int d"
  have n: "n = d * q + r" and r0: "0 \<le> r" and rd: "r < d"
    using assms by (simp_all add: q_def r_def)
  have x: "real_of_int n / real_of_int d = real_of_int q + f"
    using assms by (simp add: n f_def field_simps)
  have f: "0 \<le> f" "f < 1"
    using assms r0 rd by (simp_all add: f_def)
  consider "2 * r < d" | "d < 2 * r" | "2 * r = d" by linarith
  then show ?thesis
  proof cases
    case 1
    then have "f < 1 / 2"
      using assms unfolding f_def by (simp add: field_simps | linarith)+
    moreover have "rhe_div n d = q"
      using 1 by (simp add: rhe_div_def Let_def q_def[symmetric] r_def[symmetric])
    ultimately have False
      using assms(2) f unfolding x by simp
    then show ?thesis ..
  next
    case 2
    then have "1 / 2 < f"
      using assms unfolding f_def by (simp add: field_simps | linarith)+
    moreover have "rhe_div n d = q + 1"
      using 2 by (simp add: rhe_div_def Let_def q_def[symmetric] r_def[symmetric])
    ultimately have False
      using assms(2) f unfolding x by simp
    then show ?thesis ..
  next
    case 3
    then show ?thesis
      by (simp add: rhe_div_def Let_def q_def[symmetric] r_def[symmetric])
  qed
qed

lemma py_round_finite: "(\<exists>b. py_round x = Inr b) \<longleftrightarrow> number_finite x"
  by (cases x rule: py_round.cases) simp_all

lemma py_round_near:
  assumes "py_round x = Inr b"
  shows "\<bar>real_of_int b - number_value x\<bar> \<le> 1 / 2"
    and "\<bar>real_of_int b - number_value x\<bar> = 1 / 2 \<Longrightarrow> even b"
proof -
  have "\<bar>real_of_int b - number_value x\<bar> \<le> 1 / 2
      \<and> (\<bar>real_of_int b - number_value x\<bar> = 1 / 2 \<longrightarrow> even b)"
  proof (cases x)
    case (IntN n)
    with assms show ?thesis by simp
  next
    case (FloatN y)
    show ?thesis
    proof (cases y)
      case (Finite m e)
      note x = FloatN Finite
      show ?thesis
      proof (cases "0 \<le> e")
        case True
        with x assms show ?thesis
          by (auto simp: power_int_def)
      next
        case False
        have p: "(0::int) < 2 ^ nat (- e)" by simp
        have v: "number_value x = real_of_int m / real_of_int (2 ^ nat (- e))"
          using False x by (simp add: power_int_def field_simps)
        have b: "b = rhe_div m (2 ^ nat (- e))"
          using False x assms by simp
        show ?thesis
          unfolding v b using rhe_div_near[OF p, of m] rhe_div_tie[OF p, of m] by blast
      qed
    next
      case PosInf
      with FloatN assms show ?thesis by simp
    next
      case NegInf
      with FloatN assms show ?thesis by simp
    next
      case NaN
      with FloatN assms show ?thesis by simp
    qed
  qed
  then show "\<bar>real_of_int b - number_value x\<bar> \<le> 1 / 2"
    and "\<bar>real_of_int b - number_value x\<bar> = 1 / 2 \<Longrightarrow> even b"
    by blast+
qed

text \<open>Rounding to a double: the result, when it is finite, is a double and lies within
  half a unit of its last place of the exact number; so do the conversion of an
  \<open>int\<close>, the product and the sum of floats.\<close>

lemma rhe_div_abs_le:
  assumes "0 < d" and "0 \<le> k" and "\<bar>m\<bar> < d * k"
  shows "\<bar>rhe_div m d\<bar> \<le> k"
proof -
  have n: "\<bar>real_of_int (rhe_div m d) - real_of_int m / real_of_int d\<bar> \<le> 1 / 2"
    using assms(1) by (rule rhe_div_near)
  have "real_of_int \<bar>m\<bar> < real_of_int (d * k)"
    using assms(3) by linarith
  then have "\<bar>real_of_int m\<bar> < real_of_int d * real_of_int k"
    by simp
  then have "\<bar>real_of_int m\<bar> / real_of_int d < real_of_int k"
    using assms(1) by (simp add: field_simps)
  then have "\<bar>real_of_int m / real_of_int d\<bar> < real_of_int k"
    using assms(1) by simp
  with n have "\<bar>real_of_int (rhe_div m d)\<bar> < real_of_int k + 1 / 2"
    by linarith
  then have "real_of_int \<bar>rhe_div m d\<bar> < real_of_int k + 1"
    by simp
  then have "\<bar>rhe_div m d\<bar> < k + 1"
    by linarith
  then show ?thesis
    by simp
qed

lemma two_powi_shift:
  "t \<le> e \<Longrightarrow> (2::real) ^ nat (e - t) * 2 powi t = 2 powi e"
  "e \<le> t \<Longrightarrow> (2::real) powi t / 2 ^ nat (t - e) = 2 powi e"
proof -
  show "t \<le> e \<Longrightarrow> (2::real) ^ nat (e - t) * 2 powi t = 2 powi e"
  proof -
    assume a: "t \<le> e"
    have "(2::real) powi e = 2 powi ((e - t) + t)" by simp
    also have "\<dots> = 2 powi (e - t) * 2 powi t"
      by (rule power_int_add) simp
    also have "(2::real) powi (e - t) = 2 ^ nat (e - t)"
      using a by (simp add: power_int_def)
    finally show ?thesis by simp
  qed
  show "e \<le> t \<Longrightarrow> (2::real) powi t / 2 ^ nat (t - e) = 2 powi e"
  proof -
    assume a: "e \<le> t"
    have "(2::real) powi t = 2 powi ((t - e) + e)" by simp
    also have "\<dots> = 2 powi (t - e) * 2 powi e"
      by (rule power_int_add) simp
    also have "(2::real) powi (t - e) = 2 ^ nat (t - e)"
      using a by (simp add: power_int_def)
    finally show ?thesis by simp
  qed
qed

lemma round_dyadic_unfold:
  assumes "m \<noteq> 0"
  shows "round_dyadic m e =
    (let t0 = max (e + bitlen \<bar>m\<bar> - 53) (- 1074);
         n0 = (if t0 \<le> e then m * 2 ^ nat (e - t0) else rhe_div m (2 ^ nat (t0 - e)))
     in if 53 < bitlen \<bar>n0\<bar>
        then (if 1024 < bitlen \<bar>n0 div 2\<bar> + (t0 + 1)
              then (if 0 < n0 div 2 then PosInf else NegInf) else Finite (n0 div 2) (t0 + 1))
        else (if 1024 < bitlen \<bar>n0\<bar> + t0
              then (if 0 < n0 then PosInf else NegInf) else Finite n0 t0))"
  unfolding round_dyadic_def Let_def using assms by (simp only: if_False if_distrib[of "case_prod _"] prod.case if_True)


lemma round_dyadic_shape:
  assumes "m \<noteq> 0"
  shows "\<exists>n t. round_dyadic m e =
             (if 1024 < bitlen \<bar>n\<bar> + t then (if 0 < n then PosInf else NegInf) else Finite n t)
           \<and> \<bar>n\<bar> < 2 ^ 53 \<and> - 1074 \<le> t \<and> t \<le> max (e + bitlen \<bar>m\<bar> - 53) (- 1074) + 1
           \<and> \<bar>real_of_int n * 2 powi t - real_of_int m * 2 powi e\<bar> \<le> 2 powi t / 2"
proof -
  define b where "b = bitlen \<bar>m\<bar>"
  define t0 where "t0 = max (e + b - 53) (- 1074)"
  define n0 where "n0 = (if t0 \<le> e then m * 2 ^ nat (e - t0) else rhe_div m (2 ^ nat (t0 - e)))"
  have m0: "0 < \<bar>m\<bar>"
    using assms by simp
  have mb: "\<bar>m\<bar> < 2 ^ nat b"
    using bitlen_bounds[OF m0] by (simp add: b_def)
  have tlo: "- 1074 \<le> t0" and thi: "e + b - 53 \<le> t0"
    by (simp_all add: t0_def)
  have K: "\<bar>n0\<bar> \<le> 2 ^ 53
      \<and> \<bar>real_of_int n0 * 2 powi t0 - real_of_int m * 2 powi e\<bar> \<le> 2 powi t0 / 2"
  proof (cases "t0 \<le> e")
    case True
    have n0: "n0 = m * 2 ^ nat (e - t0)"
      using True by (simp add: n0_def)
    have "\<bar>n0\<bar> = \<bar>m\<bar> * 2 ^ nat (e - t0)"
      by (simp add: n0 abs_mult)
    then have "bitlen \<bar>n0\<bar> = b + (e - t0)"
      using m0 True by (simp add: b_def)
    with thi have "bitlen \<bar>n0\<bar> \<le> 53"
      by linarith
    then have "\<bar>n0\<bar> < 2 ^ 53"
      using bitlen_le_iff_power[of "\<bar>n0\<bar>" 53] by simp
    moreover have "real_of_int n0 * 2 powi t0 = real_of_int m * 2 powi e"
      using two_powi_shift(1)[OF True] by (simp add: n0 mult.assoc)
    ultimately show ?thesis
      by simp
  next
    case False
    define s where "s = nat (t0 - e)"
    have n0: "n0 = rhe_div m (2 ^ s)"
      using False by (simp add: n0_def s_def)
    have p: "(0::int) < 2 ^ s"
      by simp
    have "nat b \<le> s + 53"
      using False thi by (simp add: s_def)
    then have "(2::int) ^ nat b \<le> 2 ^ (s + 53)"
      by (rule power_increasing) simp
    with mb have "\<bar>m\<bar> < 2 ^ s * 2 ^ 53"
      by (simp add: power_add)
    then have a: "\<bar>n0\<bar> \<le> 2 ^ 53"
      unfolding n0 using rhe_div_abs_le[OF p, of "2 ^ 53" m] by simp
    have near: "\<bar>real_of_int n0 - real_of_int m / real_of_int (2 ^ s)\<bar> \<le> 1 / 2"
      unfolding n0 using p by (rule rhe_div_near)
    have sh: "(2::real) powi t0 / 2 ^ s = 2 powi e"
      using two_powi_shift(2)[of e t0] False by (simp add: s_def)
    have pos: "(0::real) < 2 powi t0"
      by simp
    have "real_of_int m * 2 powi e = (real_of_int m / 2 ^ s) * 2 powi t0"
      by (simp add: sh[symmetric])
    then have "real_of_int n0 * 2 powi t0 - real_of_int m * 2 powi e
        = (real_of_int n0 - real_of_int m / 2 ^ s) * 2 powi t0"
      by (simp add: algebra_simps)
    then have "\<bar>real_of_int n0 * 2 powi t0 - real_of_int m * 2 powi e\<bar>
        = \<bar>real_of_int n0 - real_of_int m / 2 ^ s\<bar> * 2 powi t0"
      by (simp add: abs_mult)
    also have "\<dots> \<le> 1 / 2 * 2 powi t0"
      using near pos by (intro mult_right_mono) simp_all
    finally show ?thesis
      using a by simp
  qed
  have rd: "round_dyadic m e =
      (if 53 < bitlen \<bar>n0\<bar>
       then (if 1024 < bitlen \<bar>n0 div 2\<bar> + (t0 + 1)
             then (if 0 < n0 div 2 then PosInf else NegInf) else Finite (n0 div 2) (t0 + 1))
       else (if 1024 < bitlen \<bar>n0\<bar> + t0
             then (if 0 < n0 then PosInf else NegInf) else Finite n0 t0))"
    unfolding round_dyadic_unfold[OF assms] Let_def n0_def t0_def b_def by (rule refl)
  show ?thesis
  proof (cases "53 < bitlen \<bar>n0\<bar>")
    case True
    have "\<not> \<bar>n0\<bar> < 2 ^ 53"
      using True bitlen_le_iff_power[of "\<bar>n0\<bar>" 53] by simp
    with K have eq: "\<bar>n0\<bar> = 2 ^ 53"
      by linarith
    define n where "n = n0 div 2"
    define t where "t = t0 + 1"
    have "n0 = 2 ^ 53 \<or> n0 = - (2 ^ 53)"
      using eq by linarith
    then have n2: "n0 = 2 * n" and an: "\<bar>n\<bar> < 2 ^ 53"
      by (auto simp: n_def)
    have pw: "(2::real) powi t = 2 powi t0 * 2"
      unfolding t_def by (simp add: power_int_add)
    have val: "real_of_int n * 2 powi t = real_of_int n0 * 2 powi t0"
      by (simp add: pw n2)
    have "(2::real) powi t0 / 2 \<le> 2 powi t / 2"
      by (simp add: pw)
    with K val have er: "\<bar>real_of_int n * 2 powi t - real_of_int m * 2 powi e\<bar> \<le> 2 powi t / 2"
      by linarith
    have "round_dyadic m e =
        (if 1024 < bitlen \<bar>n\<bar> + t then (if 0 < n then PosInf else NegInf) else Finite n t)"
      using rd True by (simp add: n_def t_def)
    moreover have "- 1074 \<le> t" "t \<le> max (e + bitlen \<bar>m\<bar> - 53) (- 1074) + 1"
      using tlo by (simp_all add: t_def t0_def b_def)
    ultimately show ?thesis
      using an er by blast
  next
    case False
    have "\<bar>n0\<bar> < 2 ^ 53"
      using False bitlen_le_iff_power[of "\<bar>n0\<bar>" 53] by simp
    moreover have "round_dyadic m e =
        (if 1024 < bitlen \<bar>n0\<bar> + t0 then (if 0 < n0 then PosInf else NegInf) else Finite n0 t0)"
      using rd False by simp
    moreover have "t0 \<le> max (e + bitlen \<bar>m\<bar> - 53) (- 1074) + 1"
      by (simp add: t0_def b_def)
    ultimately show ?thesis
      using K tlo by blast
  qed
qed

lemma round_dyadic_finite:
  assumes r: "round_dyadic m e = Finite n t"
  shows "is_float (Finite n t)"
    and "\<bar>real_of_int n * 2 powi t - real_of_int m * 2 powi e\<bar> \<le> 2 powi t / 2"
proof -
  have "is_float (Finite n t)
      \<and> \<bar>real_of_int n * 2 powi t - real_of_int m * 2 powi e\<bar> \<le> 2 powi t / 2"
  proof (cases "m = 0")
    case True
    with r have "n = 0" "t = 0"
      by (simp_all add: round_dyadic_def)
    with True show ?thesis
      by (simp add: is_float_def)
  next
    case False
    from round_dyadic_shape[OF False, of e] obtain n' t'
      where s: "round_dyadic m e =
            (if 1024 < bitlen \<bar>n'\<bar> + t' then (if 0 < n' then PosInf else NegInf) else Finite n' t')"
        and b: "\<bar>n'\<bar> < 2 ^ 53" "- 1074 \<le> t'"
        and er: "\<bar>real_of_int n' * 2 powi t' - real_of_int m * 2 powi e\<bar> \<le> 2 powi t' / 2"
      by blast
    from r s have "n = n'" "t = t'" "bitlen \<bar>n\<bar> + t \<le> 1024"
      by (auto split: if_splits)
    with b er show ?thesis
      by (simp add: is_float_def)
  qed
  then show "is_float (Finite n t)"
    and "\<bar>real_of_int n * 2 powi t - real_of_int m * 2 powi e\<bar> \<le> 2 powi t / 2"
    by blast+
qed

lemma float_of_int_near:
  assumes "float_of_int k = Inr x"
  shows "\<exists>n t. x = Finite n t \<and> is_float x
           \<and> \<bar>number_value (FloatN x) - real_of_int k\<bar> \<le> 2 powi t / 2"
proof -
  from assms obtain n t where r: "round_dyadic k 0 = Finite n t" and x: "x = Finite n t"
    by (auto simp: float_of_int_def split: pyfloat.splits)
  from round_dyadic_finite[OF r] x show ?thesis
    by simp
qed

lemma fmul_near:
  assumes "fmul (Finite a e) (Finite b f) = Finite n t"
  shows "is_float (Finite n t)"
    and "\<bar>number_value (FloatN (Finite n t))
            - number_value (FloatN (Finite a e)) * number_value (FloatN (Finite b f))\<bar> \<le> 2 powi t / 2"
proof -
  from assms have r: "round_dyadic (a * b) (e + f) = Finite n t"
    by simp
  show "is_float (Finite n t)"
    using r by (rule round_dyadic_finite)
  have "(2::real) powi (e + f) = 2 powi e * 2 powi f"
    by (rule power_int_add) simp
  then have x: "real_of_int (a * b) * 2 powi (e + f)
      = (real_of_int a * 2 powi e) * (real_of_int b * 2 powi f)"
    by simp
  show "\<bar>number_value (FloatN (Finite n t))
            - number_value (FloatN (Finite a e)) * number_value (FloatN (Finite b f))\<bar> \<le> 2 powi t / 2"
    using round_dyadic_finite(2)[OF r] unfolding x number_value.simps .
qed

lemma fadd_near:
  assumes "fadd (Finite a e) (Finite b f) = Finite n t"
  shows "is_float (Finite n t)"
    and "\<bar>number_value (FloatN (Finite n t))
            - (number_value (FloatN (Finite a e)) + number_value (FloatN (Finite b f)))\<bar> \<le> 2 powi t / 2"
proof -
  define g where "g = min e f"
  from assms have r: "round_dyadic (a * 2 ^ nat (e - g) + b * 2 ^ nat (f - g)) g = Finite n t"
    by (simp add: Let_def g_def)
  show "is_float (Finite n t)"
    using r by (rule round_dyadic_finite)
  have ge: "g \<le> e" and gf: "g \<le> f"
    by (simp_all add: g_def)
  have "real_of_int (a * 2 ^ nat (e - g) + b * 2 ^ nat (f - g)) * 2 powi g
      = real_of_int a * (2 ^ nat (e - g) * 2 powi g) + real_of_int b * (2 ^ nat (f - g) * 2 powi g)"
    by (simp add: algebra_simps)
  also have "\<dots> = real_of_int a * 2 powi e + real_of_int b * 2 powi f"
    by (simp only: two_powi_shift(1)[OF ge] two_powi_shift(1)[OF gf])
  finally have x: "real_of_int (a * 2 ^ nat (e - g) + b * 2 ^ nat (f - g)) * 2 powi g
      = real_of_int a * 2 powi e + real_of_int b * 2 powi f" .
  show "\<bar>number_value (FloatN (Finite n t))
            - (number_value (FloatN (Finite a e)) + number_value (FloatN (Finite b f)))\<bar> \<le> 2 powi t / 2"
    using round_dyadic_finite(2)[OF r] unfolding x number_value.simps .
qed

text \<open>No overflow below the largest doubles: a number below \<open>2^K\<close> in size is
  rounded to a finite double, below \<open>2^(K+1)\<close>.\<close>

lemma below_mono: "below K x \<Longrightarrow> K \<le> L \<Longrightarrow> below L x"
  by (auto simp: below_def split: pyfloat.splits)

lemma below_finite: "below K x \<Longrightarrow> number_finite (FloatN x)"
  by (cases x) (simp_all add: below_def)

lemma round_dyadic_below:
  assumes "m = 0 \<or> bitlen \<bar>m\<bar> + e \<le> K" and "- 1021 \<le> K" and "K \<le> 1023"
  shows "below (K + 1) (round_dyadic m e)"
proof (cases "m = 0")
  case True
  then show ?thesis
    by (simp add: round_dyadic_def below_def)
next
  case False
  from round_dyadic_shape[OF False, of e] obtain n t
    where s: "round_dyadic m e =
          (if 1024 < bitlen \<bar>n\<bar> + t then (if 0 < n then PosInf else NegInf) else Finite n t)"
      and b: "\<bar>n\<bar> < 2 ^ 53" and t: "t \<le> max (e + bitlen \<bar>m\<bar> - 53) (- 1074) + 1"
    by blast
  have "bitlen \<bar>n\<bar> \<le> 53"
    using b bitlen_le_iff_power[of "\<bar>n\<bar>" 53] by simp
  moreover have "bitlen \<bar>m\<bar> + e \<le> K"
    using assms(1) False by simp
  ultimately have l: "bitlen \<bar>n\<bar> + t \<le> K + 1"
    using t assms(2) by linarith
  with assms(3) have "round_dyadic m e = Finite n t"
    using s by simp
  with l show ?thesis
    by (simp add: below_def)
qed

lemma float_of_int_below:
  assumes "\<bar>k\<bar> < 2 ^ nat K" and "0 \<le> K" and "K \<le> 1023"
  shows "\<exists>x. float_of_int k = Inr x \<and> below (K + 1) x"
proof -
  have "bitlen \<bar>k\<bar> \<le> K"
    using assms(1,2) bitlen_le_iff_power[of "\<bar>k\<bar>" K] by simp
  then have "below (K + 1) (round_dyadic k 0)"
    using assms(2,3) by (intro round_dyadic_below) simp_all
  then show ?thesis
    by (auto simp: float_of_int_def below_def split: pyfloat.splits)
qed

lemma bitlen_mult_le:
  assumes "0 < x" and "0 < y"
  shows "bitlen (x * y) \<le> bitlen x + bitlen y"
proof -
  have x: "x < 2 ^ nat (bitlen x)" and y: "y < 2 ^ nat (bitlen y)"
    using bitlen_bounds[OF assms(1)] bitlen_bounds[OF assms(2)] by simp_all
  have "x * y < 2 ^ nat (bitlen x) * 2 ^ nat (bitlen y)"
    using x y assms by (intro mult_strict_mono) simp_all
  also have "\<dots> = 2 ^ nat (bitlen x + bitlen y)"
    by (simp add: power_add[symmetric] nat_add_distrib bitlen_nonneg)
  finally show ?thesis
    using bitlen_le_iff_power[of "x * y" "bitlen x + bitlen y"] bitlen_nonneg[of x] bitlen_nonneg[of y]
    by simp
qed

lemma fmul_below:
  assumes "below K x" and "below L y" and "- 1021 \<le> K + L" and "K + L \<le> 1023"
  shows "below (K + L + 1) (fmul x y)"
proof -
  from assms(1) obtain a e where x: "x = Finite a e" and a: "a = 0 \<or> bitlen \<bar>a\<bar> + e \<le> K"
    by (cases x) (simp_all add: below_def)
  from assms(2) obtain b f where y: "y = Finite b f" and b: "b = 0 \<or> bitlen \<bar>b\<bar> + f \<le> L"
    by (cases y) (simp_all add: below_def)
  have "a * b = 0 \<or> bitlen \<bar>a * b\<bar> + (e + f) \<le> K + L"
  proof (cases "a = 0 \<or> b = 0")
    case True
    then show ?thesis by auto
  next
    case False
    then have "bitlen (\<bar>a\<bar> * \<bar>b\<bar>) \<le> bitlen \<bar>a\<bar> + bitlen \<bar>b\<bar>"
      by (intro bitlen_mult_le) simp_all
    with False a b show ?thesis
      by (simp add: abs_mult)
  qed
  then have "below (K + L + 1) (round_dyadic (a * b) (e + f))"
    using assms(3,4) by (rule round_dyadic_below)
  then show ?thesis
    by (simp add: x y)
qed

lemma scaled_below:
  assumes "a = 0 \<or> bitlen \<bar>a\<bar> + e \<le> K" and "g \<le> e" and "g \<le> K"
  shows "\<bar>a\<bar> * 2 ^ nat (e - g) < 2 ^ nat (K - g)"
proof (cases "a = 0")
  case True
  then show ?thesis by simp
next
  case False
  with assms(1) have "bitlen \<bar>a\<bar> \<le> K - e"
    by simp
  then have k: "0 \<le> K - e" and "\<bar>a\<bar> < 2 ^ nat (K - e)"
    using bitlen_le_iff_power[of "\<bar>a\<bar>" "K - e"] by simp_all
  then have "\<bar>a\<bar> * 2 ^ nat (e - g) < 2 ^ nat (K - e) * 2 ^ nat (e - g)"
    by simp
  also have "\<dots> = 2 ^ nat (K - g)"
    using k assms(2) by (simp add: power_add[symmetric] nat_add_distrib[symmetric])
  finally show ?thesis .
qed

lemma fadd_below:
  assumes "below K x" and "below K y" and "- 1022 \<le> K" and "K \<le> 1022"
  shows "below (K + 2) (fadd x y)"
proof -
  from assms(1) obtain a e where x: "x = Finite a e" and a: "a = 0 \<or> bitlen \<bar>a\<bar> + e \<le> K"
    by (cases x) (simp_all add: below_def)
  from assms(2) obtain b f where y: "y = Finite b f" and b: "b = 0 \<or> bitlen \<bar>b\<bar> + f \<le> K"
    by (cases y) (simp_all add: below_def)
  define g where "g = min e f"
  define m where "m = a * 2 ^ nat (e - g) + b * 2 ^ nat (f - g)"
  have ge: "g \<le> e" and gf: "g \<le> f"
    by (simp_all add: g_def)
  have "m = 0 \<or> bitlen \<bar>m\<bar> + g \<le> K + 1"
  proof (cases "a = 0 \<and> b = 0")
    case True
    then show ?thesis by (simp add: m_def)
  next
    case False
    have "e \<le> K \<or> f \<le> K"
      using False a b bitlen_nonneg[of "\<bar>a\<bar>"] bitlen_nonneg[of "\<bar>b\<bar>"] by auto
    then have gK: "g \<le> K"
      using ge gf by linarith
    have "\<bar>m\<bar> \<le> \<bar>a\<bar> * 2 ^ nat (e - g) + \<bar>b\<bar> * 2 ^ nat (f - g)"
      unfolding m_def by (rule order_trans[OF abs_triangle_ineq]) (simp add: abs_mult)
    also have "\<dots> < 2 ^ nat (K - g) + 2 ^ nat (K - g)"
      using scaled_below[OF a ge gK] scaled_below[OF b gf gK] by linarith
    also have "\<dots> = 2 ^ nat (K - g + 1)"
      using gK by (simp add: nat_add_distrib)
    finally have "bitlen \<bar>m\<bar> \<le> K - g + 1"
      using gK bitlen_le_iff_power[of "\<bar>m\<bar>" "K - g + 1"] by simp
    then show ?thesis by simp
  qed
  then have "below (K + 1 + 1) (round_dyadic m g)"
    using assms(3,4) by (intro round_dyadic_below) simp_all
  moreover have "K + 1 + 1 = K + 2"
    by simp
  ultimately have "below (K + 2) (round_dyadic m g)"
    by (simp only:)
  then show ?thesis
    unfolding x y fadd.simps Let_def g_def m_def .
qed


lemma base_expr_int: "base_expr c (IntN n) d = Inr (IntN (20 * c + 10 * n + 5 * d))"
  by (simp add: base_expr_def)

section \<open>Properties of the scoring engine\<close>

lemma verdicts_distinct:
  "distinct [verdict_nothing, verdict_hard, verdict_work, verdict_avoided, verdict_bailed]"
  by (simp add: verdict_nothing_def verdict_hard_def verdict_work_def verdict_avoided_def
      verdict_bailed_def)

lemma clamp_bounds: "lo \<le> hi \<Longrightarrow> lo \<le> clamp v lo hi \<and> clamp v lo hi \<le> hi"
  by (simp add: clamp_def)

lemma level_from_xp_bounds: "1 \<le> level_from_xp xp \<and> level_from_xp xp \<le> 10"
  by (simp add: level_from_xp_def clamp_bounds)

lemma judge_day_returns:
  "base_expr c i d = Inr x \<Longrightarrow> py_round x = Inr b \<Longrightarrow> \<exists>j. judge_day cx s db d c m i = Inr j"
  by (simp add: judge_day_def)

lemma judge_day_raises:
  "base_expr c i d = Inl e \<Longrightarrow> judge_day cx s db d c m i = Inl e"
  "base_expr c i d = Inr x \<Longrightarrow> py_round x = Inl e \<Longrightarrow> judge_day cx s db d c m i = Inl e"
  by (simp_all add: judge_day_def)

lemma judge_day_base:
  "judge_day cx s db d c m i = Inr j \<Longrightarrow> \<exists>x b. base_expr c i d = Inr x \<and> py_round x = Inr b"
  by (auto simp: judge_day_def and_then_def split: sum.splits)

lemma judge_day_returns_iff:
  "(\<exists>j. judge_day cx s db d c m i = Inr j)
     \<longleftrightarrow> (\<exists>x. base_expr c i d = Inr x \<and> number_finite x)"
  using judge_day_base[of cx s db d c m i] judge_day_returns[of c i d _ _ cx s db m] py_round_finite
  by metis

lemma judge_day_penalty: "judge_day cx s db d c m i = Inr j \<Longrightarrow> penalty j = 15 * m"
  by (auto simp: judge_day_def and_then_def Let_def split: sum.splits)

lemma judge_day_new_streak:
  "judge_day cx s db d c m i = Inr j \<Longrightarrow> new_streak j = (if m = 0 \<and> c > 0 then s + 1 else 0)"
  by (auto simp: judge_day_def and_then_def Let_def split: sum.splits)

lemma judge_day_xp_delta:
  "judge_day cx s db d c m i = Inr j \<Longrightarrow> base_expr c i d = Inr x \<Longrightarrow> py_round x = Inr b \<Longrightarrow>
   xp_delta j = b + (if new_streak j \<ge> 3 then 5 else 0) - penalty j"
  by (auto simp: judge_day_def Let_def)

lemma judge_day_new_xp:
  "judge_day cx s db d c m i = Inr j \<Longrightarrow> new_xp j = max 0 (cx + xp_delta j)"
  by (auto simp: judge_day_def and_then_def Let_def split: sum.splits)

lemma judge_day_new_debt: "judge_day cx s db d c m i = Inr j \<Longrightarrow> new_debt j = db + m"
  by (auto simp: judge_day_def and_then_def Let_def split: sum.splits)

lemma judge_day_new_difficulty:
  "judge_day cx s db d c m i = Inr j \<Longrightarrow>
   new_difficulty j =
     clamp (if m \<ge> 2 then d + 1
            else if new_streak j \<ge> 5 then d + 1
            else if m = 0 \<and> c \<ge> 4 then d + 1 else d) 1 5"
  by (auto simp: judge_day_def and_then_def Let_def split: sum.splits)

lemma judge_day_new_level:
  "judge_day cx s db d c m i = Inr j \<Longrightarrow> new_level j = level_from_xp (new_xp j)"
  by (auto simp: judge_day_def and_then_def Let_def split: sum.splits)

lemma judge_day_verdict:
  "judge_day cx s db d c m i = Inr j \<Longrightarrow>
   verdict j = (if c = 0 \<and> m > 0 then verdict_nothing
                else if m = 0 \<and> c \<ge> 4 then verdict_hard
                else if m = 0 \<and> c > 0 then verdict_work
                else if m \<ge> 2 then verdict_avoided
                else verdict_bailed)"
  by (auto simp: judge_day_def and_then_def Let_def split: sum.splits)

lemma judge_day_int_returns: "\<exists>j. judge_day cx s db d c m (IntN n) = Inr j"
  by (simp add: judge_day_def base_expr_int)

lemma rules_judge_day_returns:
  "base_expr c i d = Inr x \<Longrightarrow> py_round x = Inr b \<Longrightarrow> \<exists>j. rules_judge_day cx s db d c m i = Inr j"
  by (simp add: rules_judge_day_def)

lemma rules_judge_day_penalty: "rules_judge_day cx s db d c m i = Inr j \<Longrightarrow> penalty j = 15 * m"
  by (auto simp: rules_judge_day_def and_then_def Let_def split: sum.splits)

lemma rules_judge_day_new_streak:
  "rules_judge_day cx s db d c m i = Inr j \<Longrightarrow> new_streak j = (if m = 0 \<and> c > 0 then s + 1 else 0)"
  by (auto simp: rules_judge_day_def and_then_def Let_def split: sum.splits)

lemma rules_judge_day_xp_delta:
  "rules_judge_day cx s db d c m i = Inr j \<Longrightarrow> base_expr c i d = Inr x \<Longrightarrow> py_round x = Inr b \<Longrightarrow>
   xp_delta j = b + (if new_streak j \<ge> 3 then 5 else 0) - penalty j"
  by (auto simp: rules_judge_day_def Let_def)

lemma rules_judge_day_new_xp:
  "rules_judge_day cx s db d c m i = Inr j \<Longrightarrow> new_xp j = max 0 (cx + xp_delta j)"
  by (auto simp: rules_judge_day_def and_then_def Let_def split: sum.splits)

lemma rules_judge_day_new_debt: "rules_judge_day cx s db d c m i = Inr j \<Longrightarrow> new_debt j = db + m"
  by (auto simp: rules_judge_day_def and_then_def Let_def split: sum.splits)

text \<open>The expression of \<open>base_xp\<close> is finite, and both copies of \<open>judge_day\<close>
  return, whenever \<open>completed\<close> and \<open>impacts_sum\<close> are below \<open>2^1000\<close>.\<close>

lemma base_expr_finite:
  assumes "0 \<le> completed" and "completed < 2 ^ 1000"
    and "1 \<le> current_difficulty" and "current_difficulty \<le> 5"
    and "below 1000 x"
  shows "\<exists>v. base_expr completed (FloatN x) current_difficulty = Inr v \<and> number_finite v"
proof -
  obtain t10 where t10: "float_of_int 10 = Inr t10" "below 5 t10"
    using float_of_int_below[of 10 4] by auto
  define p where "p = fmul t10 x"
  have p: "below 1006 p"
    unfolding p_def using fmul_below[OF t10(2) assms(5)] by simp
  have "\<bar>20 * completed\<bar> < 2 ^ nat 1005"
    using assms(1,2) by simp
  then obtain fa where fa: "float_of_int (20 * completed) = Inr fa" "below 1006 fa"
    using float_of_int_below[of "20 * completed" 1005] by auto
  define q where "q = fadd fa p"
  have q: "below 1008 q"
    unfolding q_def using fadd_below[OF fa(2) p] by simp
  have "\<bar>5 * current_difficulty\<bar> < 2 ^ nat 5"
    using assms(3,4) by simp
  then obtain fd where fd: "float_of_int (5 * current_difficulty) = Inr fd" "below 6 fd"
    using float_of_int_below[of "5 * current_difficulty" 5] by auto
  have "below 1008 fd"
    using fd(2) by (rule below_mono) simp
  then have v: "below 1010 (fadd q fd)"
    using fadd_below[OF q] by simp
  have "base_expr completed (FloatN x) current_difficulty = Inr (FloatN (fadd q fd))"
    by (simp add: base_expr_def t10 fa fd p_def q_def)
  with below_finite[OF v] show ?thesis
    by simp
qed

lemma judge_day_returns_bounded:
  assumes "0 \<le> completed" and "completed < 2 ^ 1000"
    and "1 \<le> current_difficulty" and "current_difficulty \<le> 5"
    and "(\<exists>k. impacts_sum = IntN k) \<or> (\<exists>x. impacts_sum = FloatN x \<and> below 1000 x)"
  shows "\<exists>j. judge_day current_xp current_streak current_debt current_difficulty completed missed impacts_sum = Inr j"
    and "\<exists>j. rules_judge_day current_xp current_streak current_debt current_difficulty completed missed impacts_sum = Inr j"
proof -
  have "\<exists>v. base_expr completed impacts_sum current_difficulty = Inr v \<and> number_finite v"
    using assms(5) base_expr_finite[OF assms(1-4)] by (auto simp: base_expr_int)
  then obtain v r where v: "base_expr completed impacts_sum current_difficulty = Inr v"
    and r: "py_round v = Inr r"
    using py_round_finite by blast
  show "\<exists>j. judge_day current_xp current_streak current_debt current_difficulty completed missed impacts_sum = Inr j"
    using v r by (rule judge_day_returns)
  show "\<exists>j. rules_judge_day current_xp current_streak current_debt current_difficulty completed missed impacts_sum = Inr j"
    using v r by (rule rules_judge_day_returns)
qed

text \<open>
  Claim C1, amended. Take an input with \<open>current_xp \<ge> 0\<close>, \<open>current_streak \<ge> 0\<close>,
  \<open>current_difficulty\<close> in 1..5, \<open>completed \<ge> 0\<close>, \<open>missed \<ge> 0\<close> and
  \<open>impacts_sum \<ge> 0\<close> a float or an int, for which Python evaluates
  \<open>20 * completed + 10 * impacts_sum + 5 * current_difficulty\<close>, product by product
  and sum by sum from the left, to a finite number \<open>v\<close>; every input with
  \<open>completed\<close> and \<open>impacts_sum\<close> below \<open>2^1000\<close> is one. Then both copies
  of \<open>judge_day\<close> return a judgement, with
  \<open>penalty = 15 * missed\<close>, \<open>new_streak = current_streak + 1\<close> when
  \<open>missed = 0\<close> and \<open>completed > 0\<close> and 0 otherwise,
  \<open>xp_delta = base_xp + streak_bonus - penalty\<close> and
  \<open>new_xp = max(0, current_xp + xp_delta)\<close>, where \<open>base_xp\<close> is the integer
  nearest to \<open>v\<close>, the even one of the two when \<open>v\<close> lies halfway, and
  \<open>streak_bonus\<close> is 5 when the new streak is at least 3 and 0 otherwise.
\<close>

theorem judge_day_xp_formulas:
  assumes "0 \<le> current_xp" and "0 \<le> current_streak"
    and "1 \<le> current_difficulty" and "current_difficulty \<le> 5"
    and "0 \<le> completed" and "0 \<le> missed"
    and "is_number impacts_sum" and "num_ge0 impacts_sum"
    and a: "py_mul (IntN 20) (IntN completed) = Inr a"
    and b: "py_mul (IntN 10) impacts_sum = Inr b"
    and c: "py_add a b = Inr c"
    and d: "py_mul (IntN 5) (IntN current_difficulty) = Inr d"
    and v: "py_add c d = Inr v"
    and fin: "number_finite v"
  shows "\<forall>jd \<in> {judge_day, rules_judge_day}. \<exists>j base_xp.
           jd current_xp current_streak current_debt current_difficulty completed missed impacts_sum = Inr j
           \<and> \<bar>real_of_int base_xp - number_value v\<bar> \<le> 1 / 2
           \<and> (\<bar>real_of_int base_xp - number_value v\<bar> = 1 / 2 \<longrightarrow> even base_xp)
           \<and> penalty j = 15 * missed
           \<and> new_streak j = (if missed = 0 \<and> completed > 0 then current_streak + 1 else 0)
           \<and> xp_delta j = base_xp + (if new_streak j \<ge> 3 then 5 else 0) - penalty j
           \<and> new_xp j = max 0 (current_xp + xp_delta j)"
proof -
  have e: "base_expr completed impacts_sum current_difficulty = Inr v"
    using a b c d v by (auto simp: base_expr_def)
  from fin obtain r where r: "py_round v = Inr r"
    using py_round_finite by blast
  have near: "\<bar>real_of_int r - number_value v\<bar> \<le> 1 / 2"
    and tie: "\<bar>real_of_int r - number_value v\<bar> = 1 / 2 \<longrightarrow> even r"
    using py_round_near[OF r] by blast+
  obtain j where j: "judge_day current_xp current_streak current_debt current_difficulty completed missed impacts_sum = Inr j"
    using judge_day_returns[OF e r] by blast
  obtain k where k: "rules_judge_day current_xp current_streak current_debt current_difficulty completed missed impacts_sum = Inr k"
    using rules_judge_day_returns[OF e r] by blast
  have 1: "\<exists>j base_xp.
           judge_day current_xp current_streak current_debt current_difficulty completed missed impacts_sum = Inr j
           \<and> \<bar>real_of_int base_xp - number_value v\<bar> \<le> 1 / 2
           \<and> (\<bar>real_of_int base_xp - number_value v\<bar> = 1 / 2 \<longrightarrow> even base_xp)
           \<and> penalty j = 15 * missed
           \<and> new_streak j = (if missed = 0 \<and> completed > 0 then current_streak + 1 else 0)
           \<and> xp_delta j = base_xp + (if new_streak j \<ge> 3 then 5 else 0) - penalty j
           \<and> new_xp j = max 0 (current_xp + xp_delta j)"
    using j near tie judge_day_penalty[OF j] judge_day_new_streak[OF j]
      judge_day_xp_delta[OF j e r] judge_day_new_xp[OF j]
    by blast
  have 2: "\<exists>j base_xp.
           rules_judge_day current_xp current_streak current_debt current_difficulty completed missed impacts_sum = Inr j
           \<and> \<bar>real_of_int base_xp - number_value v\<bar> \<le> 1 / 2
           \<and> (\<bar>real_of_int base_xp - number_value v\<bar> = 1 / 2 \<longrightarrow> even base_xp)
           \<and> penalty j = 15 * missed
           \<and> new_streak j = (if missed = 0 \<and> completed > 0 then current_streak + 1 else 0)
           \<and> xp_delta j = base_xp + (if new_streak j \<ge> 3 then 5 else 0) - penalty j
           \<and> new_xp j = max 0 (current_xp + xp_delta j)"
    using k near tie rules_judge_day_penalty[OF k] rules_judge_day_new_streak[OF k]
      rules_judge_day_xp_delta[OF k e r] rules_judge_day_new_xp[OF k]
    by blast
  from 1 2 show ?thesis by simp
qed

text \<open>Without the finiteness the claim fails: at \<open>impacts_sum = 1e308\<close>, which is the
  double \<open>5010420900022432 * 2^971\<close>, the product \<open>10 * impacts_sum\<close> is \<open>inf\<close>,
  \<open>round\<close> raises \<open>OverflowError\<close>, and \<open>judge_day\<close> returns nothing.\<close>

lemma base_expr_overflow:
  "base_expr 0 (FloatN (Finite 5010420900022432 971)) 1 = Inr (FloatN PosInf)"
  by code_simp

theorem judge_day_xp_formulas_counterexample:
  "is_number (FloatN (Finite 5010420900022432 971))
   \<and> num_ge0 (FloatN (Finite 5010420900022432 971))
   \<and> judge_day 0 0 0 1 0 0 (FloatN (Finite 5010420900022432 971)) = Inl OverflowError
   \<and> \<not> (\<exists>j. judge_day 0 0 0 1 0 0 (FloatN (Finite 5010420900022432 971)) = Inr j)"
proof -
  have f: "is_number (FloatN (Finite 5010420900022432 971))"
    by code_simp
  have r: "judge_day 0 0 0 1 0 0 (FloatN (Finite 5010420900022432 971)) = Inl OverflowError"
    using judge_day_raises(2)[OF base_expr_overflow, of OverflowError] by simp
  show ?thesis
    using f r by simp
qed

text \<open>Sample doubles: 0.55 is \<open>2476979795053773 * 2^-52\<close>, 1.45 is
  \<open>6530219459687219 * 2^-52\<close>, 5.5 is \<open>11 * 2^-1\<close>, 2.0 is \<open>1 * 2^1\<close> and 4.0 is
  \<open>1 * 2^2\<close>. With one completion at difficulty 1 the expression of \<open>base_xp\<close> is
  the double 30.5 at 0.55 (the product \<open>10 * 0.55\<close> is the double 5.5) and the double
  39.5 at 1.45 (the product is the double 14.5).\<close>

lemma base_expr_055:
  "base_expr 1 (FloatN (Finite 2476979795053773 (- 52))) 1 = Inr (FloatN (Finite 8584986789675008 (- 48)))"
  by code_simp

lemma base_expr_145:
  "base_expr 1 (FloatN (Finite 6530219459687219 (- 52))) 1 = Inr (FloatN (Finite 5559130790035456 (- 47)))"
  by code_simp

lemma base_expr_55:
  "base_expr 4 (FloatN (Finite 11 (- 1))) 1 = Inr (FloatN (Finite 4925812092436480 (- 45)))"
  by code_simp

lemma sample_floats:
  "is_float (Finite 2476979795053773 (- 52))"
  "is_float (Finite 6530219459687219 (- 52))"
  "is_float (Finite 11 (- 1))"
  by code_simp+

lemma sample_values:
  "number_value (FloatN (Finite 8584986789675008 (- 48))) = 61 / 2"
  "number_value (FloatN (Finite 5559130790035456 (- 47))) = 79 / 2"
  "number_value (FloatN (Finite 4925812092436480 (- 45))) = 140"
  by (simp_all add: power_int_def field_simps)

lemma nearest_even_61:
  assumes "\<bar>real_of_int b - 61 / 2\<bar> \<le> 1 / 2" and "\<bar>real_of_int b - 61 / 2\<bar> = 1 / 2 \<longrightarrow> even b"
  shows "b = 30"
proof -
  have "30 \<le> b" "b \<le> 31" using assms(1) by linarith+
  then have "b = 30 \<or> b = 31" by linarith
  with assms(2) show ?thesis by auto
qed

lemma nearest_even_79:
  assumes "\<bar>real_of_int b - 79 / 2\<bar> \<le> 1 / 2" and "\<bar>real_of_int b - 79 / 2\<bar> = 1 / 2 \<longrightarrow> even b"
  shows "b = 40"
proof -
  have "39 \<le> b" "b \<le> 40" using assms(1) by linarith+
  then have "b = 39 \<or> b = 40" by linarith
  with assms(2) show ?thesis by auto
qed

lemma base_expr_samples:
  "base_expr 2 (FloatN (Finite 1 1)) 1 = Inr (FloatN (Finite 4573968371548160 (- 46)))"
  "base_expr 4 (FloatN (Finite 11 (- 1))) 5 = Inr (FloatN (Finite 5629499534213120 (- 45)))"
  "base_expr 4 (FloatN (Finite 1 2)) 1 = Inr (FloatN (Finite 8796093022208000 (- 46)))"
  by code_simp+

lemma rhe_div_sample:
  "rhe_div 5629499534213120 35184372088832 = 160"
  by code_simp

lemma judge_day_sample_returns:
  "\<exists>j. judge_day cx s db 1 4 m (FloatN (Finite 11 (- 1))) = Inr j"
  "\<exists>j. judge_day cx s db 1 2 m (FloatN (Finite 1 1)) = Inr j"
  "\<exists>j. judge_day cx s db 5 4 m (FloatN (Finite 11 (- 1))) = Inr j"
  "\<exists>j. judge_day cx s db 1 4 m (FloatN (Finite 1 2)) = Inr j"
  by (simp_all add: judge_day_def base_expr_55 base_expr_samples)

lemma steps_055:
  "py_mul (IntN 20) (IntN 1) = Inr (IntN 20)"
  "py_mul (IntN 10) (FloatN (Finite 2476979795053773 (- 52))) = Inr (FloatN (Finite 6192449487634432 (- 50)))"
  "py_add (IntN 20) (FloatN (Finite 6192449487634432 (- 50))) = Inr (FloatN (Finite 7177611906121728 (- 48)))"
  "py_mul (IntN 5) (IntN 1) = Inr (IntN 5)"
  "py_add (FloatN (Finite 7177611906121728 (- 48))) (IntN 5) = Inr (FloatN (Finite 8584986789675008 (- 48)))"
  by code_simp+

lemma steps_145:
  "py_mul (IntN 20) (IntN 1) = Inr (IntN 20)"
  "py_mul (IntN 10) (FloatN (Finite 6530219459687219 (- 52))) = Inr (FloatN (Finite 8162774324609024 (- 49)))"
  "py_add (IntN 20) (FloatN (Finite 8162774324609024 (- 49))) = Inr (FloatN (Finite 4855443348258816 (- 47)))"
  "py_mul (IntN 5) (IntN 1) = Inr (IntN 5)"
  "py_add (FloatN (Finite 4855443348258816 (- 47))) (IntN 5) = Inr (FloatN (Finite 5559130790035456 (- 47)))"
  by code_simp+

lemma steps_55:
  "py_mul (IntN 20) (IntN 4) = Inr (IntN 80)"
  "py_mul (IntN 10) (FloatN (Finite 11 (- 1))) = Inr (FloatN (Finite 7740561859543040 (- 47)))"
  "py_add (IntN 80) (FloatN (Finite 7740561859543040 (- 47))) = Inr (FloatN (Finite 4749890231992320 (- 45)))"
  "py_mul (IntN 5) (IntN 1) = Inr (IntN 5)"
  "py_add (FloatN (Finite 4749890231992320 (- 45))) (IntN 5) = Inr (FloatN (Finite 4925812092436480 (- 45)))"
  by code_simp+

lemma steps_int:
  "py_mul (IntN 20) (IntN 0) = Inr (IntN 0)"
  "py_mul (IntN 10) (IntN 0) = Inr (IntN 0)"
  "py_add (IntN 0) (IntN 0) = Inr (IntN 0)"
  "py_mul (IntN 5) (IntN 2) = Inr (IntN 10)"
  "py_add (IntN 0) (IntN 10) = Inr (IntN 10)"
  by simp_all

text \<open>Days whose base value is not an integer: with 0.55 the double 30.5 is rounded to
  the even 30, with 1.45 the double 39.5 to the even 40 (and the streak of 3 adds 5).
  And the two scenarios of the specification: 4 completed with impacts 5.5 earn 140 XP;
  3 missed from 500 XP cost 35.\<close>

theorem judge_day_xp_formulas_witness:
  "(\<exists>j. judge_day 0 0 0 1 1 0 (FloatN (Finite 2476979795053773 (- 52))) = Inr j
        \<and> xp_delta j = 30 \<and> new_xp j = 30 \<and> penalty j = 0 \<and> new_streak j = 1)
   \<and> (\<exists>j. rules_judge_day 0 2 0 1 1 0 (FloatN (Finite 6530219459687219 (- 52))) = Inr j
        \<and> xp_delta j = 45 \<and> new_xp j = 45 \<and> penalty j = 0 \<and> new_streak j = 3)
   \<and> (\<exists>j. judge_day 0 0 0 1 4 0 (FloatN (Finite 11 (- 1))) = Inr j
        \<and> xp_delta j = 140 \<and> new_xp j = 140 \<and> penalty j = 0 \<and> new_streak j = 1)
   \<and> (\<exists>j. rules_judge_day 500 4 1 2 0 3 (IntN 0) = Inr j
        \<and> xp_delta j = - 35 \<and> new_xp j = 465 \<and> penalty j = 45 \<and> new_streak j = 0)"
proof (intro conjI)
  have e: "judge_day \<in> {judge_day, rules_judge_day}"
    and l: "rules_judge_day \<in> {judge_day, rules_judge_day}"
    by simp_all
  {
    have "\<forall>jd \<in> {judge_day, rules_judge_day}. \<exists>j base_xp.
           jd 0 0 0 1 1 0 (FloatN (Finite 2476979795053773 (- 52))) = Inr j
           \<and> \<bar>real_of_int base_xp - number_value (FloatN (Finite 8584986789675008 (- 48)))\<bar> \<le> 1 / 2
           \<and> (\<bar>real_of_int base_xp - number_value (FloatN (Finite 8584986789675008 (- 48)))\<bar> = 1 / 2
                \<longrightarrow> even base_xp)
           \<and> penalty j = 15 * 0
           \<and> new_streak j = (if (0::int) = 0 \<and> (1::int) > 0 then 0 + 1 else 0)
           \<and> xp_delta j = base_xp + (if new_streak j \<ge> 3 then 5 else 0) - penalty j
           \<and> new_xp j = max 0 (0 + xp_delta j)"
      by (rule judge_day_xp_formulas[OF _ _ _ _ _ _ _ _ steps_055]) (simp_all add: sample_floats)
    from bspec[OF this e] obtain j b
      where j: "judge_day 0 0 0 1 1 0 (FloatN (Finite 2476979795053773 (- 52))) = Inr j"
        and n: "\<bar>real_of_int b - 61 / 2\<bar> \<le> 1 / 2" "\<bar>real_of_int b - 61 / 2\<bar> = 1 / 2 \<longrightarrow> even b"
        and r: "penalty j = 0" "new_streak j = 1"
          "xp_delta j = b + (if new_streak j \<ge> 3 then 5 else 0) - penalty j"
          "new_xp j = max 0 (0 + xp_delta j)"
      unfolding sample_values by auto
    have "b = 30"
      using n by (rule nearest_even_61)
    with j r show "\<exists>j. judge_day 0 0 0 1 1 0 (FloatN (Finite 2476979795053773 (- 52))) = Inr j
        \<and> xp_delta j = 30 \<and> new_xp j = 30 \<and> penalty j = 0 \<and> new_streak j = 1"
      by simp
  }
  {
    have "\<forall>jd \<in> {judge_day, rules_judge_day}. \<exists>j base_xp.
           jd 0 2 0 1 1 0 (FloatN (Finite 6530219459687219 (- 52))) = Inr j
           \<and> \<bar>real_of_int base_xp - number_value (FloatN (Finite 5559130790035456 (- 47)))\<bar> \<le> 1 / 2
           \<and> (\<bar>real_of_int base_xp - number_value (FloatN (Finite 5559130790035456 (- 47)))\<bar> = 1 / 2
                \<longrightarrow> even base_xp)
           \<and> penalty j = 15 * 0
           \<and> new_streak j = (if (0::int) = 0 \<and> (1::int) > 0 then 2 + 1 else 0)
           \<and> xp_delta j = base_xp + (if new_streak j \<ge> 3 then 5 else 0) - penalty j
           \<and> new_xp j = max 0 (0 + xp_delta j)"
      by (rule judge_day_xp_formulas[OF _ _ _ _ _ _ _ _ steps_145]) (simp_all add: sample_floats)
    from bspec[OF this l] obtain j b
      where j: "rules_judge_day 0 2 0 1 1 0 (FloatN (Finite 6530219459687219 (- 52))) = Inr j"
        and n: "\<bar>real_of_int b - 79 / 2\<bar> \<le> 1 / 2" "\<bar>real_of_int b - 79 / 2\<bar> = 1 / 2 \<longrightarrow> even b"
        and r: "penalty j = 0" "new_streak j = 3"
          "xp_delta j = b + (if new_streak j \<ge> 3 then 5 else 0) - penalty j"
          "new_xp j = max 0 (0 + xp_delta j)"
      unfolding sample_values by auto
    have "b = 40"
      using n by (rule nearest_even_79)
    with j r show "\<exists>j. rules_judge_day 0 2 0 1 1 0 (FloatN (Finite 6530219459687219 (- 52))) = Inr j
        \<and> xp_delta j = 45 \<and> new_xp j = 45 \<and> penalty j = 0 \<and> new_streak j = 3"
      by simp
  }
  {
    have "\<forall>jd \<in> {judge_day, rules_judge_day}. \<exists>j base_xp.
           jd 0 0 0 1 4 0 (FloatN (Finite 11 (- 1))) = Inr j
           \<and> \<bar>real_of_int base_xp - number_value (FloatN (Finite 4925812092436480 (- 45)))\<bar> \<le> 1 / 2
           \<and> (\<bar>real_of_int base_xp - number_value (FloatN (Finite 4925812092436480 (- 45)))\<bar> = 1 / 2
                \<longrightarrow> even base_xp)
           \<and> penalty j = 15 * 0
           \<and> new_streak j = (if (0::int) = 0 \<and> (4::int) > 0 then 0 + 1 else 0)
           \<and> xp_delta j = base_xp + (if new_streak j \<ge> 3 then 5 else 0) - penalty j
           \<and> new_xp j = max 0 (0 + xp_delta j)"
      by (rule judge_day_xp_formulas[OF _ _ _ _ _ _ _ _ steps_55]) (simp_all add: sample_floats)
    from bspec[OF this e] obtain j b
      where j: "judge_day 0 0 0 1 4 0 (FloatN (Finite 11 (- 1))) = Inr j"
        and n: "\<bar>real_of_int b - 140\<bar> \<le> 1 / 2"
        and r: "penalty j = 0" "new_streak j = 1"
          "xp_delta j = b + (if new_streak j \<ge> 3 then 5 else 0) - penalty j"
          "new_xp j = max 0 (0 + xp_delta j)"
      unfolding sample_values by auto
    have "b = 140"
      using n by linarith
    with j r show "\<exists>j. judge_day 0 0 0 1 4 0 (FloatN (Finite 11 (- 1))) = Inr j
        \<and> xp_delta j = 140 \<and> new_xp j = 140 \<and> penalty j = 0 \<and> new_streak j = 1"
      by simp
  }
  {
    have "\<forall>jd \<in> {judge_day, rules_judge_day}. \<exists>j base_xp.
           jd 500 4 1 2 0 3 (IntN 0) = Inr j
           \<and> \<bar>real_of_int base_xp - number_value (IntN 10)\<bar> \<le> 1 / 2
           \<and> (\<bar>real_of_int base_xp - number_value (IntN 10)\<bar> = 1 / 2
                \<longrightarrow> even base_xp)
           \<and> penalty j = 15 * 3
           \<and> new_streak j = (if (3::int) = 0 \<and> (0::int) > 0 then 4 + 1 else 0)
           \<and> xp_delta j = base_xp + (if new_streak j \<ge> 3 then 5 else 0) - penalty j
           \<and> new_xp j = max 0 (500 + xp_delta j)"
      by (rule judge_day_xp_formulas[OF _ _ _ _ _ _ _ _ steps_int]) simp_all
    from bspec[OF this l] obtain j b
      where j: "rules_judge_day 500 4 1 2 0 3 (IntN 0) = Inr j"
        and n: "\<bar>real_of_int b - 10\<bar> \<le> 1 / 2"
        and r: "penalty j = 45" "new_streak j = 0"
          "xp_delta j = b + (if new_streak j \<ge> 3 then 5 else 0) - penalty j"
          "new_xp j = max 0 (500 + xp_delta j)"
      by auto
    have "b = 10"
      using n by linarith
    with j r show "\<exists>j. rules_judge_day 500 4 1 2 0 3 (IntN 0) = Inr j
        \<and> xp_delta j = - 35 \<and> new_xp j = 465 \<and> penalty j = 45 \<and> new_streak j = 0"
      by simp
  }
qed

text \<open>
  Claim C3. When \<open>judge_day\<close> returns, it has selected the verdict by an ordered chain
  of predicates, the first that holds winning: no completion and some miss gives "You
  executed nothing..."; else no miss and at least 4 completions gives "You executed
  hard..."; else no miss and some completion gives "You did the work..."; else at least
  2 misses gives "You avoided the main goal..."; else the catch-all. In particular
  \<open>completed = 0\<close> with \<open>missed = 0\<close> yields the catch-all and not "You executed
  nothing...".
\<close>

theorem judge_day_verdict_chain:
  assumes "judge_day current_xp current_streak current_debt current_difficulty completed missed impacts_sum = Inr j"
  shows "let v = verdict j;
             p1 = (completed = 0 \<and> missed > 0);
             p2 = (missed = 0 \<and> completed \<ge> 4);
             p3 = (missed = 0 \<and> completed > 0);
             p4 = (missed \<ge> 2)
         in (p1 \<longrightarrow> v = verdict_nothing)
          \<and> (\<not> p1 \<and> p2 \<longrightarrow> v = verdict_hard)
          \<and> (\<not> p1 \<and> \<not> p2 \<and> p3 \<longrightarrow> v = verdict_work)
          \<and> (\<not> p1 \<and> \<not> p2 \<and> \<not> p3 \<and> p4 \<longrightarrow> v = verdict_avoided)
          \<and> (\<not> p1 \<and> \<not> p2 \<and> \<not> p3 \<and> \<not> p4 \<longrightarrow> v = verdict_bailed)
          \<and> (completed = 0 \<and> missed = 0 \<longrightarrow> v = verdict_bailed \<and> v \<noteq> verdict_nothing)"
  using verdicts_distinct judge_day_verdict[OF assms]
  by (auto simp: Let_def)

text \<open>One day for each branch of the chain, and the empty day.\<close>

theorem judge_day_verdict_chain_witness:
  "(\<exists>j. judge_day 0 0 0 1 0 0 (IntN 0) = Inr j
        \<and> verdict j = verdict_bailed \<and> verdict j \<noteq> verdict_nothing)
   \<and> (\<exists>j. judge_day 500 4 1 2 0 3 (IntN 0) = Inr j \<and> verdict j = verdict_nothing)
   \<and> (\<exists>j. judge_day 0 0 0 1 4 0 (FloatN (Finite 11 (- 1))) = Inr j \<and> verdict j = verdict_hard)
   \<and> (\<exists>j. judge_day 0 0 0 1 2 0 (FloatN (Finite 1 1)) = Inr j \<and> verdict j = verdict_work)
   \<and> (\<exists>j. judge_day 0 0 0 1 2 2 (FloatN (Finite 1 1)) = Inr j \<and> verdict j = verdict_avoided)
   \<and> (\<exists>j. judge_day 0 0 0 1 2 1 (FloatN (Finite 1 1)) = Inr j \<and> verdict j = verdict_bailed)"
proof (intro conjI)
  have ne: "verdict_bailed \<noteq> verdict_nothing"
    using verdicts_distinct by auto
  obtain j where j: "judge_day 0 0 0 1 0 0 (IntN 0) = Inr j"
    using judge_day_int_returns by blast
  from judge_day_verdict_chain[OF j] ne j
  show "\<exists>j. judge_day 0 0 0 1 0 0 (IntN 0) = Inr j
        \<and> verdict j = verdict_bailed \<and> verdict j \<noteq> verdict_nothing"
    by (simp add: Let_def)
  obtain j where j: "judge_day 500 4 1 2 0 3 (IntN 0) = Inr j"
    using judge_day_int_returns by blast
  from judge_day_verdict_chain[OF j] j
  show "\<exists>j. judge_day 500 4 1 2 0 3 (IntN 0) = Inr j \<and> verdict j = verdict_nothing"
    by (simp add: Let_def)
  obtain j where j: "judge_day 0 0 0 1 4 0 (FloatN (Finite 11 (- 1))) = Inr j"
    using judge_day_sample_returns(1) by blast
  from judge_day_verdict_chain[OF j] j
  show "\<exists>j. judge_day 0 0 0 1 4 0 (FloatN (Finite 11 (- 1))) = Inr j \<and> verdict j = verdict_hard"
    by (simp add: Let_def)
  obtain j where j: "judge_day 0 0 0 1 2 0 (FloatN (Finite 1 1)) = Inr j"
    using judge_day_sample_returns(2) by blast
  from judge_day_verdict_chain[OF j] j
  show "\<exists>j. judge_day 0 0 0 1 2 0 (FloatN (Finite 1 1)) = Inr j \<and> verdict j = verdict_work"
    by (simp add: Let_def)
  obtain j where j: "judge_day 0 0 0 1 2 2 (FloatN (Finite 1 1)) = Inr j"
    using judge_day_sample_returns(2) by blast
  from judge_day_verdict_chain[OF j] j
  show "\<exists>j. judge_day 0 0 0 1 2 2 (FloatN (Finite 1 1)) = Inr j \<and> verdict j = verdict_avoided"
    by (simp add: Let_def)
  obtain j where j: "judge_day 0 0 0 1 2 1 (FloatN (Finite 1 1)) = Inr j"
    using judge_day_sample_returns(2) by blast
  from judge_day_verdict_chain[OF j] j
  show "\<exists>j. judge_day 0 0 0 1 2 1 (FloatN (Finite 1 1)) = Inr j \<and> verdict j = verdict_bailed"
    by (simp add: Let_def)
qed

text \<open>
  Claim C4. For every valid input on which \<open>judge_day\<close> returns, \<open>new_difficulty\<close> is
  the current difficulty plus at most one increment of 1, taken by the first of
  \<open>missed \<ge> 2\<close>, \<open>new_streak \<ge> 5\<close>, \<open>missed = 0 and completed \<ge> 4\<close> that holds,
  clamped to 1..5; \<open>new_level\<close> is \<open>1 + floor(new_xp / 250)\<close> clamped to 1..10. Hence
  \<open>new_difficulty\<close> lies in 1..5 and \<open>new_level\<close> in 1..10.
\<close>

theorem judge_day_difficulty_level:
  assumes "0 \<le> current_xp" and "0 \<le> current_streak"
    and "1 \<le> current_difficulty" and "current_difficulty \<le> 5"
    and "0 \<le> completed" and "0 \<le> missed" and "num_ge0 impacts_sum"
    and r: "judge_day current_xp current_streak current_debt current_difficulty completed missed impacts_sum = Inr j"
  shows "let bump = (if missed \<ge> 2 then 1
                     else if new_streak j \<ge> 5 then 1
                     else if missed = 0 \<and> completed \<ge> 4 then 1
                     else 0)
         in new_difficulty j = max 1 (min 5 (current_difficulty + bump))
          \<and> new_level j = max 1 (min 10 (1 + new_xp j div 250))
          \<and> 1 \<le> new_difficulty j \<and> new_difficulty j \<le> 5
          \<and> 1 \<le> new_level j \<and> new_level j \<le> 10"
proof -
  have d: "new_difficulty j =
      max 1 (min 5 (current_difficulty + (if missed \<ge> 2 then 1
                     else if new_streak j \<ge> 5 then 1
                     else if missed = 0 \<and> completed \<ge> 4 then 1
                     else 0)))"
    by (simp add: judge_day_new_difficulty[OF r] clamp_def)
  have l: "new_level j = max 1 (min 10 (1 + new_xp j div 250))"
    by (simp only: judge_day_new_level[OF r] level_from_xp_def clamp_def)
  have db: "1 \<le> new_difficulty j \<and> new_difficulty j \<le> 5"
    by (simp only: judge_day_new_difficulty[OF r]) (rule clamp_bounds, simp)
  have lb: "1 \<le> new_level j \<and> new_level j \<le> 10"
    by (simp only: judge_day_new_level[OF r] level_from_xp_bounds)
  show ?thesis
    unfolding Let_def using d l db lb by blast
qed

text \<open>Three misses at difficulty 2 give 3 and level 2; a strong day at difficulty 5 and
  2600 XP stays at 5 and reaches the level cap 10.\<close>

theorem judge_day_difficulty_level_witness:
  "(\<exists>j. judge_day 500 4 1 2 0 3 (IntN 0) = Inr j \<and> new_difficulty j = 3 \<and> new_level j = 2)
   \<and> (\<exists>j. judge_day 2600 4 0 5 4 0 (FloatN (Finite 11 (- 1))) = Inr j
        \<and> new_difficulty j = 5 \<and> new_level j = 10)"
proof (intro conjI)
  obtain j where j: "judge_day 500 4 1 2 0 3 (IntN 0) = Inr j"
    using judge_day_int_returns by blast
  have x: "new_xp j = 465"
    using j by (simp add: judge_day_def base_expr_int Let_def) auto
  from judge_day_difficulty_level[OF _ _ _ _ _ _ _ j] j x judge_day_new_streak[OF j]
  show "\<exists>j. judge_day 500 4 1 2 0 3 (IntN 0) = Inr j \<and> new_difficulty j = 3 \<and> new_level j = 2"
    by (simp add: Let_def)
  obtain j where j: "judge_day 2600 4 0 5 4 0 (FloatN (Finite 11 (- 1))) = Inr j"
    using judge_day_sample_returns(3) by blast
  have x: "2600 \<le> new_xp j"
    using j by (simp add: judge_day_def base_expr_samples Let_def rhe_div_sample) auto
  then have "10 \<le> new_xp j div 250"
    by linarith
  with judge_day_difficulty_level[OF _ _ _ _ _ _ _ j] j judge_day_new_streak[OF j]
  show "\<exists>j. judge_day 2600 4 0 5 4 0 (FloatN (Finite 11 (- 1))) = Inr j
        \<and> new_difficulty j = 5 \<and> new_level j = 10"
    by (simp add: Let_def)
qed

text \<open>
  Claim C5. For every input on which \<open>judge_day\<close> returns, \<open>new_streak\<close> is
  \<open>current_streak + 1\<close> when \<open>missed = 0\<close> and \<open>completed > 0\<close>, and 0 in every
  other case; for a streak that is not negative, it is \<open>current_streak + 1\<close> exactly in
  that case.
\<close>

theorem judge_day_streak:
  assumes "judge_day current_xp current_streak current_debt current_difficulty completed missed impacts_sum = Inr j"
  shows "(missed = 0 \<and> completed > 0 \<longrightarrow> new_streak j = current_streak + 1)
       \<and> (\<not> (missed = 0 \<and> completed > 0) \<longrightarrow> new_streak j = 0)
       \<and> (0 \<le> current_streak \<longrightarrow> (new_streak j = current_streak + 1 \<longleftrightarrow> missed = 0 \<and> completed > 0))"
  using judge_day_new_streak[OF assms] by simp

text \<open>A clean day extends a streak of 4 to 5; a miss or an empty day resets it.\<close>

theorem judge_day_streak_witness:
  "(\<exists>j. judge_day 0 4 0 1 2 0 (FloatN (Finite 1 1)) = Inr j \<and> new_streak j = 5)
   \<and> (\<exists>j. judge_day 0 4 0 1 2 1 (FloatN (Finite 1 1)) = Inr j \<and> new_streak j = 0)
   \<and> (\<exists>j. judge_day 0 4 0 1 0 0 (IntN 0) = Inr j \<and> new_streak j = 0)"
proof (intro conjI)
  obtain j where j: "judge_day 0 4 0 1 2 0 (FloatN (Finite 1 1)) = Inr j"
    using judge_day_sample_returns(2) by blast
  from judge_day_streak[OF j] j
  show "\<exists>j. judge_day 0 4 0 1 2 0 (FloatN (Finite 1 1)) = Inr j \<and> new_streak j = 5"
    by simp
  obtain j where j: "judge_day 0 4 0 1 2 1 (FloatN (Finite 1 1)) = Inr j"
    using judge_day_sample_returns(2) by blast
  from judge_day_streak[OF j] j
  show "\<exists>j. judge_day 0 4 0 1 2 1 (FloatN (Finite 1 1)) = Inr j \<and> new_streak j = 0"
    by simp
  obtain j where j: "judge_day 0 4 0 1 0 0 (IntN 0) = Inr j"
    using judge_day_int_returns by blast
  from judge_day_streak[OF j] j
  show "\<exists>j. judge_day 0 4 0 1 0 0 (IntN 0) = Inr j \<and> new_streak j = 0"
    by simp
qed

text \<open>
  Claim C10. For every input with \<open>current_difficulty\<close> in 1..5 on which \<open>judge_day\<close>
  returns, the new difficulty is at least the current one and at most one above it.
\<close>

theorem judge_day_difficulty_step:
  assumes "1 \<le> current_difficulty" and "current_difficulty \<le> 5"
    and r: "judge_day current_xp current_streak current_debt current_difficulty completed missed impacts_sum = Inr j"
  shows "current_difficulty \<le> new_difficulty j \<and> new_difficulty j \<le> current_difficulty + 1"
  using assms(1,2) by (simp add: judge_day_new_difficulty[OF r] clamp_def)

text \<open>At the cap 5 two misses leave the difficulty at 5; at 1 a strong day gives 2.\<close>

theorem judge_day_difficulty_step_witness:
  "(\<exists>j. judge_day 0 0 0 5 0 2 (IntN 0) = Inr j
        \<and> 5 \<le> new_difficulty j \<and> new_difficulty j \<le> 5 + 1 \<and> new_difficulty j = 5)
   \<and> (\<exists>j. judge_day 0 0 0 1 4 0 (FloatN (Finite 1 2)) = Inr j \<and> new_difficulty j = 2)"
proof (intro conjI)
  obtain j where j: "judge_day 0 0 0 5 0 2 (IntN 0) = Inr j"
    using judge_day_int_returns by blast
  from judge_day_difficulty_step[OF _ _ j] j judge_day_new_difficulty[OF j]
  show "\<exists>j. judge_day 0 0 0 5 0 2 (IntN 0) = Inr j
        \<and> 5 \<le> new_difficulty j \<and> new_difficulty j \<le> 5 + 1 \<and> new_difficulty j = 5"
    by (simp add: clamp_def)
  obtain j where j: "judge_day 0 0 0 1 4 0 (FloatN (Finite 1 2)) = Inr j"
    using judge_day_sample_returns(4) by blast
  from judge_day_difficulty_step[OF _ _ j] j judge_day_new_difficulty[OF j] judge_day_new_streak[OF j]
  show "\<exists>j. judge_day 0 0 0 1 4 0 (FloatN (Finite 1 2)) = Inr j \<and> new_difficulty j = 2"
    by (simp add: clamp_def)
qed

section \<open>Properties of the heuristic generator\<close>

lemma strip_all_space: "\<forall>c \<in> set s. is_space c \<Longrightarrow> strip s = []"
proof -
  assume a: "\<forall>c \<in> set s. is_space c"
  then have d: "dropWhile is_space s = []"
    by (simp add: dropWhile_eq_Nil_conv)
  show ?thesis
    unfolding strip_def d by simp
qed

lemma any_in_Nil: "\<forall>k \<in> set ks. k \<noteq> [] \<Longrightarrow> \<not> any_in ks []"
  by (auto simp: any_in_def list_ex_iff)

lemma no_keyword_in_empty: "\<not> any_in revenue_keywords []" "\<not> any_in build_keywords []"
  by (simp_all add: any_in_def revenue_keywords_def build_keywords_def)

lemma offline_actions_revenue:
  "any_in revenue_keywords (lower (strip g)) \<Longrightarrow>
   offline_actions g d =
     [\<lparr> text_of = ''Contact 10 prospects (DM/email) with ONE offer. Log replies.'', impact_weight = 1.4, difficulty = min 3 (d + 1), non_negotiable = True \<rparr>,
      \<lparr> text_of = ''Improve the offer (headline + price + guarantee). Publish it.'', impact_weight = 1.2, difficulty = d, non_negotiable = True \<rparr>,
      \<lparr> text_of = ''Book 1 short sales call (15 min). No research-avoidance.'', impact_weight = 1.5, difficulty = min 3 (d + 1), non_negotiable = True \<rparr>,
      \<lparr> text_of = ''Ask for money: send 1 invoice/checkout link or request a deposit.'', impact_weight = 1.5, difficulty = 3, non_negotiable = True \<rparr>]"
  by (simp add: offline_actions_def add_def Let_def)

lemma offline_actions_build:
  "\<not> any_in revenue_keywords (lower (strip g)) \<Longrightarrow> any_in build_keywords (lower (strip g)) \<Longrightarrow>
   offline_actions g d =
     [\<lparr> text_of = ''Set a deadline: ship 1 concrete feature today. No side quests.'', impact_weight = 1.3, difficulty = d, non_negotiable = True \<rparr>,
      \<lparr> text_of = ''Cut 1 feature you 'want' but don't need. Commit the change.'', impact_weight = 1.2, difficulty = d, non_negotiable = True \<rparr>,
      \<lparr> text_of = ''Post a public update (X/LinkedIn) showing what you shipped.'', impact_weight = 1.1, difficulty = d, non_negotiable = True \<rparr>,
      \<lparr> text_of = ''Get 3 people to test and give feedback. Collect responses.'', impact_weight = 1.4, difficulty = min 3 (d + 1), non_negotiable = True \<rparr>]"
  by (simp add: offline_actions_def add_def Let_def)

lemma offline_actions_generic:
  "\<not> any_in revenue_keywords (lower (strip g)) \<Longrightarrow> \<not> any_in build_keywords (lower (strip g)) \<Longrightarrow>
   offline_actions g d =
     [\<lparr> text_of = ''Write today's 3 deliverables in 1 sentence each. No fluff.'', impact_weight = 1.0, difficulty = d, non_negotiable = True \<rparr>,
      \<lparr> text_of = ''Do the most uncomfortable task first. 45-minute timer. No distractions.'', impact_weight = 1.4, difficulty = min 3 (d + 1), non_negotiable = True \<rparr>,
      \<lparr> text_of = ''Remove 1 blocker by contacting a human (not Googling).'', impact_weight = 1.3, difficulty = min 3 (d + 1), non_negotiable = True \<rparr>,
      \<lparr> text_of = ''Ship something visible: post/commit/demo. Proof > intention.'', impact_weight = 1.2, difficulty = d, non_negotiable = True \<rparr>]"
  by (simp add: offline_actions_def add_def Let_def)

lemma offline_actions_length: "length (offline_actions g d) = 4"
  by (cases "any_in revenue_keywords (lower (strip g))"; cases "any_in build_keywords (lower (strip g))")
     (simp_all add: offline_actions_revenue offline_actions_build offline_actions_generic)

lemma offline_actions_difficulty_le:
  "a \<in> set (offline_actions g d) \<Longrightarrow> difficulty a \<le> max 3 d"
  by (cases "any_in revenue_keywords (lower (strip g))"; cases "any_in build_keywords (lower (strip g))")
     (auto simp: offline_actions_revenue offline_actions_build offline_actions_generic)

lemma offline_actions_difficulty_small:
  "d \<le> 3 \<Longrightarrow> a \<in> set (offline_actions g d) \<Longrightarrow> difficulty a \<le> 3"
  using offline_actions_difficulty_le[of a g d] by simp

text \<open>
  Claim C8. The heuristic generator classifies the lowercased goal text by testing the
  revenue keywords (mrr, sales, customers, customer, revenue, sell, pipeline) before the
  build keywords (product, mvp, app, build, launch, ship): a goal with a revenue keyword
  yields the revenue template, also when it holds a build keyword as well; a goal with a
  build keyword only yields the build template; a goal with neither yields the generic
  template, and so does an empty goal or one of white space only.
\<close>

theorem offline_actions_classification:
  "let l = lower (strip g);
       revenue_hit = (\<exists>k \<in> set [''mrr'', ''sales'', ''customers'', ''customer'', ''revenue'', ''sell'', ''pipeline'']. sublist k l);
       build_hit = (\<exists>k \<in> set [''product'', ''mvp'', ''app'', ''build'', ''launch'', ''ship'']. sublist k l);
       texts = map text_of (offline_actions g d);
       revenue_texts =
         [''Contact 10 prospects (DM/email) with ONE offer. Log replies.'',
          ''Improve the offer (headline + price + guarantee). Publish it.'',
          ''Book 1 short sales call (15 min). No research-avoidance.'',
          ''Ask for money: send 1 invoice/checkout link or request a deposit.''];
       build_texts =
         [''Set a deadline: ship 1 concrete feature today. No side quests.'',
          ''Cut 1 feature you 'want' but don't need. Commit the change.'',
          ''Post a public update (X/LinkedIn) showing what you shipped.'',
          ''Get 3 people to test and give feedback. Collect responses.''];
       generic_texts =
         [''Write today's 3 deliverables in 1 sentence each. No fluff.'',
          ''Do the most uncomfortable task first. 45-minute timer. No distractions.'',
          ''Remove 1 blocker by contacting a human (not Googling).'',
          ''Ship something visible: post/commit/demo. Proof > intention.'']
   in (revenue_hit \<longrightarrow> texts = revenue_texts)
    \<and> (revenue_hit \<and> build_hit \<longrightarrow> texts = revenue_texts \<and> texts \<noteq> build_texts)
    \<and> (\<not> revenue_hit \<and> build_hit \<longrightarrow> texts = build_texts)
    \<and> (\<not> revenue_hit \<and> \<not> build_hit \<longrightarrow> texts = generic_texts)
    \<and> ((\<forall>c \<in> set g. is_space c) \<longrightarrow> texts = generic_texts)"
proof -
  let ?l = "lower (strip g)"
  have r: "any_in revenue_keywords ?l \<longleftrightarrow>
      (\<exists>k \<in> set [''mrr'', ''sales'', ''customers'', ''customer'', ''revenue'', ''sell'', ''pipeline'']. sublist k ?l)"
    by (simp add: any_in_def revenue_keywords_def)
  have b: "any_in build_keywords ?l \<longleftrightarrow>
      (\<exists>k \<in> set [''product'', ''mvp'', ''app'', ''build'', ''launch'', ''ship'']. sublist k ?l)"
    by (simp add: any_in_def build_keywords_def)
  have sp: "\<not> any_in revenue_keywords ?l \<and> \<not> any_in build_keywords ?l" if "\<forall>c \<in> set g. is_space c"
    using strip_all_space[OF that] no_keyword_in_empty by (simp add: lower_def)
  have ne: "map text_of (offline_actions g d) \<noteq>
         [''Set a deadline: ship 1 concrete feature today. No side quests.'',
          ''Cut 1 feature you 'want' but don't need. Commit the change.'',
          ''Post a public update (X/LinkedIn) showing what you shipped.'',
          ''Get 3 people to test and give feedback. Collect responses.'']"
    if "any_in revenue_keywords ?l"
    by (simp add: offline_actions_revenue[OF that])
  show ?thesis
    unfolding Let_def r[symmetric] b[symmetric]
  proof (intro conjI impI)
    assume "any_in revenue_keywords ?l"
    then show "map text_of (offline_actions g d) =
         [''Contact 10 prospects (DM/email) with ONE offer. Log replies.'',
          ''Improve the offer (headline + price + guarantee). Publish it.'',
          ''Book 1 short sales call (15 min). No research-avoidance.'',
          ''Ask for money: send 1 invoice/checkout link or request a deposit.'']"
      by (simp add: offline_actions_revenue)
  next
    assume "any_in revenue_keywords ?l \<and> any_in build_keywords ?l"
    then show "map text_of (offline_actions g d) =
         [''Contact 10 prospects (DM/email) with ONE offer. Log replies.'',
          ''Improve the offer (headline + price + guarantee). Publish it.'',
          ''Book 1 short sales call (15 min). No research-avoidance.'',
          ''Ask for money: send 1 invoice/checkout link or request a deposit.'']"
      by (simp add: offline_actions_revenue)
  next
    assume "any_in revenue_keywords ?l \<and> any_in build_keywords ?l"
    then show "map text_of (offline_actions g d) \<noteq>
         [''Set a deadline: ship 1 concrete feature today. No side quests.'',
          ''Cut 1 feature you 'want' but don't need. Commit the change.'',
          ''Post a public update (X/LinkedIn) showing what you shipped.'',
          ''Get 3 people to test and give feedback. Collect responses.'']"
      by (simp add: ne)
  next
    assume "\<not> any_in revenue_keywords ?l \<and> any_in build_keywords ?l"
    then show "map text_of (offline_actions g d) =
         [''Set a deadline: ship 1 concrete feature today. No side quests.'',
          ''Cut 1 feature you 'want' but don't need. Commit the change.'',
          ''Post a public update (X/LinkedIn) showing what you shipped.'',
          ''Get 3 people to test and give feedback. Collect responses.'']"
      by (simp add: offline_actions_build)
  next
    assume "\<not> any_in revenue_keywords ?l \<and> \<not> any_in build_keywords ?l"
    then show "map text_of (offline_actions g d) =
         [''Write today's 3 deliverables in 1 sentence each. No fluff.'',
          ''Do the most uncomfortable task first. 45-minute timer. No distractions.'',
          ''Remove 1 blocker by contacting a human (not Googling).'',
          ''Ship something visible: post/commit/demo. Proof > intention.'']"
      by (simp add: offline_actions_generic)
  next
    assume "\<forall>c \<in> set g. is_space c"
    then have "\<not> any_in revenue_keywords ?l \<and> \<not> any_in build_keywords ?l"
      by (rule sp)
    then show "map text_of (offline_actions g d) =
         [''Write today's 3 deliverables in 1 sentence each. No fluff.'',
          ''Do the most uncomfortable task first. 45-minute timer. No distractions.'',
          ''Remove 1 blocker by contacting a human (not Googling).'',
          ''Ship something visible: post/commit/demo. Proof > intention.'']"
      by (simp add: offline_actions_generic)
  qed
qed

lemma classify_both:
  "(\<exists>k \<in> set [''mrr'', ''sales'', ''customers'', ''customer'', ''revenue'', ''sell'', ''pipeline'']. sublist k (lower (strip ''Sell the app'')))"
  "(\<exists>k \<in> set [''product'', ''mvp'', ''app'', ''build'', ''launch'', ''ship'']. sublist k (lower (strip ''Sell the app'')))"
  by code_simp+

lemma classify_build:
  "\<not> (\<exists>k \<in> set [''mrr'', ''sales'', ''customers'', ''customer'', ''revenue'', ''sell'', ''pipeline'']. sublist k (lower (strip ''  Ship the MVP  '')))"
  "(\<exists>k \<in> set [''product'', ''mvp'', ''app'', ''build'', ''launch'', ''ship'']. sublist k (lower (strip ''  Ship the MVP  '')))"
  by code_simp+

lemma classify_none:
  "\<not> (\<exists>k \<in> set [''mrr'', ''sales'', ''customers'', ''customer'', ''revenue'', ''sell'', ''pipeline'']. sublist k (lower (strip ''Get fit'')))"
  "\<not> (\<exists>k \<in> set [''product'', ''mvp'', ''app'', ''build'', ''launch'', ''ship'']. sublist k (lower (strip ''Get fit'')))"
  by code_simp+

lemma blank_is_space: "\<forall>c \<in> set ''  ''. is_space c"
  by (simp add: is_space_def)

text \<open>A goal with a keyword of both sets, one with a build keyword, one with none, and a
  blank one.\<close>

theorem offline_actions_classification_witness:
  "map text_of (offline_actions ''Sell the app'' 2) =
     [''Contact 10 prospects (DM/email) with ONE offer. Log replies.'',
      ''Improve the offer (headline + price + guarantee). Publish it.'',
      ''Book 1 short sales call (15 min). No research-avoidance.'',
      ''Ask for money: send 1 invoice/checkout link or request a deposit.'']
   \<and> map text_of (offline_actions ''  Ship the MVP  '' 2) =
     [''Set a deadline: ship 1 concrete feature today. No side quests.'',
      ''Cut 1 feature you 'want' but don't need. Commit the change.'',
      ''Post a public update (X/LinkedIn) showing what you shipped.'',
      ''Get 3 people to test and give feedback. Collect responses.'']
   \<and> map text_of (offline_actions ''Get fit'' 2) =
     [''Write today's 3 deliverables in 1 sentence each. No fluff.'',
      ''Do the most uncomfortable task first. 45-minute timer. No distractions.'',
      ''Remove 1 blocker by contacting a human (not Googling).'',
      ''Ship something visible: post/commit/demo. Proof > intention.'']
   \<and> map text_of (offline_actions ''  '' 2) =
     [''Write today's 3 deliverables in 1 sentence each. No fluff.'',
      ''Do the most uncomfortable task first. 45-minute timer. No distractions.'',
      ''Remove 1 blocker by contacting a human (not Googling).'',
      ''Ship something visible: post/commit/demo. Proof > intention.'']"
proof (intro conjI)
  note t = offline_actions_classification[unfolded Let_def]
  show "map text_of (offline_actions ''Sell the app'' 2) =
     [''Contact 10 prospects (DM/email) with ONE offer. Log replies.'',
      ''Improve the offer (headline + price + guarantee). Publish it.'',
      ''Book 1 short sales call (15 min). No research-avoidance.'',
      ''Ask for money: send 1 invoice/checkout link or request a deposit.'']"
    by (rule t[THEN conjunct1, THEN mp, OF classify_both(1)])
  show "map text_of (offline_actions ''  Ship the MVP  '' 2) =
     [''Set a deadline: ship 1 concrete feature today. No side quests.'',
      ''Cut 1 feature you 'want' but don't need. Commit the change.'',
      ''Post a public update (X/LinkedIn) showing what you shipped.'',
      ''Get 3 people to test and give feedback. Collect responses.'']"
    by (rule t[THEN conjunct2, THEN conjunct2, THEN conjunct1, THEN mp,
          OF conjI[OF classify_build]])
  show "map text_of (offline_actions ''Get fit'' 2) =
     [''Write today's 3 deliverables in 1 sentence each. No fluff.'',
      ''Do the most uncomfortable task first. 45-minute timer. No distractions.'',
      ''Remove 1 blocker by contacting a human (not Googling).'',
      ''Ship something visible: post/commit/demo. Proof > intention.'']"
    by (rule t[THEN conjunct2, THEN conjunct2, THEN conjunct2, THEN conjunct1, THEN mp,
          OF conjI[OF classify_none]])
  show "map text_of (offline_actions ''  '' 2) =
     [''Write today's 3 deliverables in 1 sentence each. No fluff.'',
      ''Do the most uncomfortable task first. 45-minute timer. No distractions.'',
      ''Remove 1 blocker by contacting a human (not Googling).'',
      ''Ship something visible: post/commit/demo. Proof > intention.'']"
    by (rule t[THEN conjunct2, THEN conjunct2, THEN conjunct2, THEN conjunct2, THEN mp,
          OF blank_is_space])
qed

lemma offline_actions_keeps_input_difficulty:
  "\<exists>a \<in> set (offline_actions g d). difficulty a = d"
  by (cases "any_in revenue_keywords (lower (strip g))"; cases "any_in build_keywords (lower (strip g))")
     (simp_all add: offline_actions_revenue offline_actions_build offline_actions_generic)

text \<open>
  Claim C2 says that every proposal of the heuristic generator has a difficulty of at most
  3 for an input difficulty in 1..5. The proposals that take the input difficulty as it
  is are not capped: at input difficulty 4 the generic template has the difficulties
  4, 3, 3, 4, and at 5 the revenue template has 3, 5, 3, 3.
\<close>

theorem offline_actions_difficulty_above_cap:
  "map difficulty (offline_actions ''Get fit'' 4) = [4, 3, 3, 4]
   \<and> map difficulty (offline_actions ''Sell the app'' 5) = [3, 5, 3, 3]"
  by code_simp

section \<open>Properties of the generation adapter\<close>

lemma generate_actions_no_key:
  "strip (case getenv_api_key w of None \<Rightarrow> [] | Some v \<Rightarrow> v) = [] \<Longrightarrow>
   generate_actions w g d h = Inr (offline_actions g d)"
  by (simp add: generate_actions_def)

lemma generate_actions_with_key:
  "strip (case getenv_api_key w of None \<Rightarrow> [] | Some v \<Rightarrow> v) = k \<Longrightarrow> k \<noteq> [] \<Longrightarrow>
   generate_actions w g d h =
     (case try_block w k g d h of Inl e \<Rightarrow> Inr (offline_actions g d) | Inr acts \<Rightarrow> Inr acts)"
  by (simp add: generate_actions_def)

lemma generate_actions_returns: "\<exists>acts. generate_actions w g d h = Inr acts"
  by (simp add: generate_actions_def Let_def split: sum.split)

lemma fetch_text_post_fails: "post w k g d h = Inl e \<Longrightarrow> fetch_text w k g d h = Inl e"
  by (simp add: fetch_text_def)

lemma fetch_text_bad_status:
  "post w k g d h = Inr r \<Longrightarrow> 400 \<le> status_code r \<Longrightarrow> status_code r < 600 \<Longrightarrow>
   fetch_text w k g d h = Inl HTTPError"
  by (simp add: fetch_text_def raise_for_status_def)

lemma fetch_text_bad_body:
  "post w k g d h = Inr r \<Longrightarrow> json_body r = Inl e \<Longrightarrow> \<exists>e'. fetch_text w k g d h = Inl e'"
  by (simp add: fetch_text_def raise_for_status_def)

lemma try_block_fetch_fails: "fetch_text w k g d h = Inl e \<Longrightarrow> try_block w k g d h = Inl e"
  by (simp add: try_block_def)

lemma cleaned_items_loads_fails: "json_loads w m = Inl e \<Longrightarrow> cleaned_items w m = Inl e"
  by (simp add: cleaned_items_def)

text \<open>With a key and a reply of at least three items the items are returned.\<close>

lemma generate_actions_success:
  assumes "strip (case getenv_api_key w of None \<Rightarrow> [] | Some v \<Rightarrow> v) = k" and "k \<noteq> []"
    and "fetch_text w k g d h = Inr t" and "re_search_brackets t = Some m"
    and "cleaned_items w m = Inr cleaned" and "3 \<le> length cleaned"
  shows "generate_actions w g d h = Inr cleaned"
  using assms by (simp add: generate_actions_with_key try_block_def)

text \<open>
  Claim C9. \<open>generate_actions\<close> never lets an error reach its caller: it always returns
  a list. Without an API key (unset, empty or blank) it returns exactly the offline list
  for the same goal and difficulty, and with a key it returns that list whenever the
  external path fails: the request raises, the status is 4xx or 5xx, the body is not
  JSON, any step up to the text raises, the text holds no bracketed part, \<open>json.loads\<close>
  or the cleaning of an item raises, or fewer than 3 items are left.
\<close>

theorem generate_actions_absorbs_failures:
  "let k = strip (case getenv_api_key w of None \<Rightarrow> [] | Some v \<Rightarrow> v);
       result = generate_actions w g d h;
       offline = Inr (offline_actions g d)
   in (\<exists>acts. result = Inr acts)
    \<and> (k = [] \<longrightarrow> result = offline)
    \<and> (k \<noteq> [] \<longrightarrow>
          (\<forall>e. post w k g d h = Inl e \<longrightarrow> result = offline)
        \<and> (\<forall>r. post w k g d h = Inr r \<and> 400 \<le> status_code r \<and> status_code r < 600 \<longrightarrow> result = offline)
        \<and> (\<forall>r e. post w k g d h = Inr r \<and> json_body r = Inl e \<longrightarrow> result = offline)
        \<and> (\<forall>e. fetch_text w k g d h = Inl e \<longrightarrow> result = offline)
        \<and> (\<forall>txt. fetch_text w k g d h = Inr txt \<and> re_search_brackets txt = None \<longrightarrow> result = offline)
        \<and> (\<forall>txt m e. fetch_text w k g d h = Inr txt \<and> re_search_brackets txt = Some m
              \<and> json_loads w m = Inl e \<longrightarrow> result = offline)
        \<and> (\<forall>txt m e. fetch_text w k g d h = Inr txt \<and> re_search_brackets txt = Some m
              \<and> cleaned_items w m = Inl e \<longrightarrow> result = offline)
        \<and> (\<forall>txt m cleaned. fetch_text w k g d h = Inr txt \<and> re_search_brackets txt = Some m
              \<and> cleaned_items w m = Inr cleaned \<and> length cleaned < 3 \<longrightarrow> result = offline))"
proof -
  define k where "k = strip (case getenv_api_key w of None \<Rightarrow> [] | Some v \<Rightarrow> v)"
  have nokey: "generate_actions w g d h = Inr (offline_actions g d)" if "k = []"
    using that by (simp add: generate_actions_no_key k_def)
  have key: "generate_actions w g d h =
      (case try_block w k g d h of Inl e \<Rightarrow> Inr (offline_actions g d) | Inr acts \<Rightarrow> Inr acts)"
    if "k \<noteq> []"
    using that by (simp add: generate_actions_with_key k_def)
  have fetch: "generate_actions w g d h = Inr (offline_actions g d)"
    if "k \<noteq> []" "fetch_text w k g d h = Inl e" for e
    using that by (simp add: key try_block_fetch_fails)
  have a: "generate_actions w g d h = Inr (offline_actions g d)"
    if "k \<noteq> []" "post w k g d h = Inl e" for e
    using that fetch fetch_text_post_fails by blast
  have b: "generate_actions w g d h = Inr (offline_actions g d)"
    if "k \<noteq> []" "post w k g d h = Inr r" "400 \<le> status_code r" "status_code r < 600" for r
    using that fetch fetch_text_bad_status by blast
  have c: "generate_actions w g d h = Inr (offline_actions g d)"
    if "k \<noteq> []" "post w k g d h = Inr r" "json_body r = Inl e" for r e
    using that fetch fetch_text_bad_body by blast
  have e: "generate_actions w g d h = Inr (offline_actions g d)"
    if "k \<noteq> []" "fetch_text w k g d h = Inr tx" "re_search_brackets tx = None" for tx
    using that by (simp add: key try_block_def)
  have f: "generate_actions w g d h = Inr (offline_actions g d)"
    if "k \<noteq> []" "fetch_text w k g d h = Inr tx" "re_search_brackets tx = Some m"
      "cleaned_items w m = Inl e" for tx m e
    using that by (simp add: key try_block_def)
  have f2: "generate_actions w g d h = Inr (offline_actions g d)"
    if "k \<noteq> []" "fetch_text w k g d h = Inr tx" "re_search_brackets tx = Some m"
      "json_loads w m = Inl e" for tx m e
    using that f cleaned_items_loads_fails by blast
  have g: "generate_actions w g d h = Inr (offline_actions g d)"
    if "k \<noteq> []" "fetch_text w k g d h = Inr tx" "re_search_brackets tx = Some m"
      "cleaned_items w m = Inr cleaned" "length cleaned < 3" for tx m cleaned
    using that by (simp add: key try_block_def)
  show ?thesis
    unfolding Let_def k_def[symmetric]
    using generate_actions_returns[of w g d h] nokey a b c fetch e f f2 g
    by blast
qed

lemma world_keys:
  "strip (case getenv_api_key world_no_key of None \<Rightarrow> [] | Some v \<Rightarrow> v) = []"
  "strip (case getenv_api_key world_network_down of None \<Rightarrow> [] | Some v \<Rightarrow> v) = ''sk-test''"
  "strip (case getenv_api_key world_server_error of None \<Rightarrow> [] | Some v \<Rightarrow> v) = ''sk-test''"
  "strip (case getenv_api_key world_short_reply of None \<Rightarrow> [] | Some v \<Rightarrow> v) = ''sk-test''"
  by (simp_all add: world_no_key_def world_network_down_def world_server_error_def
      world_short_reply_def strip_def is_space_def)

lemma short_reply_text:
  "fetch_text world_short_reply ''sk-test'' ''Get fit'' 2 [] = Inr ''Here: [one, two] done''"
  by (simp add: fetch_text_def world_short_reply_def world_network_down_def world_no_key_def
      raise_for_status_def reply_body_def)

lemma short_reply_match: "re_search_brackets ''Here: [one, two] done'' = Some ''[one, two]''"
  by (simp add: re_search_brackets_def)

lemma short_reply_cleaned:
  "cleaned_items world_short_reply ''[one, two]'' =
     Inr [\<lparr> text_of = ''Call one customer'', impact_weight = 1, difficulty = 2, non_negotiable = True \<rparr>,
          \<lparr> text_of = ''Send one invoice'', impact_weight = 1, difficulty = 3, non_negotiable = True \<rparr>]"
  by (simp add: cleaned_items_def world_short_reply_def world_network_down_def world_no_key_def
      stub_str_def stub_float_def stub_int_def strip_def is_space_def)

text \<open>The four example environments all end in the offline list.\<close>

theorem generate_actions_absorbs_failures_witness:
  "generate_actions world_no_key ''Get fit'' 2 [] = Inr (offline_actions ''Get fit'' 2)
   \<and> generate_actions world_network_down ''Get fit'' 2 [] = Inr (offline_actions ''Get fit'' 2)
   \<and> generate_actions world_server_error ''Get fit'' 2 [] = Inr (offline_actions ''Get fit'' 2)
   \<and> generate_actions world_short_reply ''Get fit'' 2 [] = Inr (offline_actions ''Get fit'' 2)"
proof (intro conjI)
  note t = generate_actions_absorbs_failures[unfolded Let_def]
  show "generate_actions world_no_key ''Get fit'' 2 [] = Inr (offline_actions ''Get fit'' 2)"
    using t[of world_no_key "''Get fit''" 2 "[]"] by (simp add: world_keys)
  show "generate_actions world_network_down ''Get fit'' 2 [] = Inr (offline_actions ''Get fit'' 2)"
    using t[of world_network_down "''Get fit''" 2 "[]"]
    by (simp add: world_keys) (simp add: world_network_down_def world_no_key_def)
  show "generate_actions world_server_error ''Get fit'' 2 [] = Inr (offline_actions ''Get fit'' 2)"
    using t[of world_server_error "''Get fit''" 2 "[]"]
    by (simp add: world_keys) (simp add: world_server_error_def world_network_down_def world_no_key_def)
  show "generate_actions world_short_reply ''Get fit'' 2 [] = Inr (offline_actions ''Get fit'' 2)"
    using t[of world_short_reply "''Get fit''" 2 "[]"]
    by (simp add: world_keys short_reply_text short_reply_match short_reply_cleaned)
qed

section \<open>Properties of storage and the requests\<close>

lemma list_actions_append:
  "list_actions (s\<lparr> db_actions := db_actions s @ rows \<rparr>) uid day =
     list_actions s uid day @ filter (\<lambda>r. row_user_id r = uid \<and> row_date r = day) rows"
  by (simp add: list_actions_def)

lemma list_actions_user: "r \<in> set (list_actions s uid day) \<Longrightarrow> r \<in> set (db_actions s) \<and> row_user_id r = uid"
  by (simp add: list_actions_def)

lemma existing_user:
  assumes "actions_have_users s" and "list_actions s uid day \<noteq> []"
  shows "\<exists>u. db_users s uid = Some u"
proof -
  from assms(2) obtain r where "r \<in> set (list_actions s uid day)"
    by (cases "list_actions s uid day") auto
  then have "r \<in> set (db_actions s)" and "row_user_id r = uid"
    using list_actions_user by blast+
  with assms(1) show ?thesis
    by (auto simp: actions_have_users_def)
qed

lemma generate_today_existing:
  "db_users s uid = Some u \<Longrightarrow> list_actions s uid day \<noteq> [] \<Longrightarrow>
   generate_today w uuids day s uid = (Inr (day, list_actions s uid day), s)"
  by (simp add: generate_today_def)

lemma generate_today_keeps_state:
  "list_actions s uid day \<noteq> [] \<Longrightarrow> snd (generate_today w uuids day s uid) = s"
  by (simp add: generate_today_def split: option.split)

lemma generate_button_existing:
  "db_users s (ss_user_id ss) = Some u \<Longrightarrow> list_actions s (ss_user_id ss) (ss_today ss) \<noteq> [] \<Longrightarrow>
   generate_button gen uuids s ss =
     (Some (ss\<lparr> ss_today_actions := list_actions s (ss_user_id ss) (ss_today ss) \<rparr>,
            Warning ''Already generated for today. You don't get a re-roll.''), s)"
  by (simp add: generate_button_def get_user_def Let_def)

lemma generate_button_keeps_state:
  "list_actions s (ss_user_id ss) (ss_today ss) \<noteq> [] \<Longrightarrow> snd (generate_button gen uuids s ss) = s"
  by (simp add: generate_button_def get_user_def Let_def split: option.split)

lemma try_block_length:
  "try_block w k g d h = Inr acts \<Longrightarrow> 3 \<le> length acts"
  by (auto simp: try_block_def and_then_def offline_actions_length
      split: sum.splits option.splits if_splits)

lemma generate_actions_length:
  "generate_actions w g d h = Inr acts \<Longrightarrow> 3 \<le> length acts"
  by (auto simp: generate_actions_def Let_def offline_actions_length
      split: sum.splits if_splits dest: try_block_length)

lemma enumerate_rows_filter:
  "filter (\<lambda>r. row_user_id r = uid \<and> row_date r = day)
     (map (\<lambda>(i, a). \<lparr> text_of = f a, impact_weight = impact_weight a,
                      difficulty = difficulty a, non_negotiable = True,
                      row_id = uuids i, row_user_id = uid, row_date = day,
                      row_completed = None, row_completed_at = None \<rparr>) xs)
   = map (\<lambda>(i, a). \<lparr> text_of = f a, impact_weight = impact_weight a,
                      difficulty = difficulty a, non_negotiable = True,
                      row_id = uuids i, row_user_id = uid, row_date = day,
                      row_completed = None, row_completed_at = None \<rparr>) xs"
  by (induction xs) auto

lemma generate_today_user:
  "generate_today w uuids day s uid = (Inr r, s') \<Longrightarrow> \<exists>u. db_users s uid = Some u"
  by (cases "db_users s uid") (simp_all add: generate_today_def)

text \<open>A request that generated, for a day without actions, returns at least three rows,
  which are then the stored rows of the day.\<close>

lemma generate_today_fresh:
  assumes "list_actions s uid day = []"
    and "generate_today w uuids day s uid = (Inr (d, out), s')"
  shows "d = day \<and> 3 \<le> length out \<and> list_actions s' uid day = out \<and> db_users s' = db_users s"
proof -
  obtain u where u: "db_users s uid = Some u"
    using generate_today_user[OF assms(2)] by blast
  obtain acts where g: "generate_actions w (user_goal_text u) (user_difficulty u)
      (history_summary [CHR 0xC3, CHR 0x8E, CHR 0xE2, CHR 0x80, CHR 0x9D] (history_rows s uid 7)) = Inr acts"
    using generate_actions_returns by blast
  have l: "3 \<le> length acts"
    using g by (rule generate_actions_length)
  show ?thesis
    using assms u l
    by (auto simp add: generate_today_def Let_def g list_actions_append enumerate_rows_filter)
qed

text \<open>After a request that returned, the next request for the day returns the same rows
  and writes nothing.\<close>

lemma generate_today_again:
  assumes "generate_today w uuids day s uid = (Inr (d, out), s')"
  shows "d = day \<and> out \<noteq> [] \<and> generate_today w' uuids' day s' uid = (Inr (day, out), s')"
proof -
  obtain u where u: "db_users s uid = Some u"
    using generate_today_user[OF assms] by blast
  show ?thesis
  proof (cases "list_actions s uid day = []")
    case True
    from generate_today_fresh[OF True assms]
    have f: "d = day" "3 \<le> length out" "list_actions s' uid day = out" "db_users s' = db_users s"
      by blast+
    have ne: "out \<noteq> []"
      using f(2) by auto
    have "generate_today w' uuids' day s' uid = (Inr (day, out), s')"
      using generate_today_existing[of s' uid u day w' uuids'] f u ne by simp
    with f(1) ne show ?thesis
      by blast
  next
    case False
    from generate_today_existing[OF u False, of w uuids] assms
    have e: "d = day" "out = list_actions s uid day" "s' = s"
      by simp_all
    with False generate_today_existing[OF u False, of w' uuids'] show ?thesis
      by simp
  qed
qed

lemma set_action_completion_users [simp]:
  "db_users (set_action_completion now s aid c) = db_users s"
  by (simp add: set_action_completion_def)

lemma fold_completion_users:
  "db_users (fold (\<lambda>(action_id, c) t. set_action_completion now t action_id c) updates s) = db_users s"
  by (induction updates arbitrary: s) (auto simp: case_prod_beta)

lemma upsert_daily_result_users [simp]:
  "db_users (upsert_daily_result now nid s uid day j) = db_users s"
  by (simp add: upsert_daily_result_def split: list.split)

lemma insert_actions_users [simp]:
  "db_users (insert_actions uuids s uid day acts) = db_users s"
  by (simp add: insert_actions_def)

lemma upsert_user_debt:
  "db_users s v = Some u \<Longrightarrow>
   \<exists>u'. db_users (upsert_user now s uid g) v = Some u' \<and> user_debt u' = user_debt u"
  by (auto simp: upsert_user_def Let_def)

lemma generate_button_users:
  "db_users (snd (generate_button gen uuids s ss)) = db_users s"
  by (simp add: generate_button_def Let_def split: option.split)

lemma submit_checkin_debt:
  assumes "db_users s v = Some u"
  shows "\<exists>u'. db_users (snd (submit_checkin fsum now nid checked s ss)) v = Some u'
           \<and> user_debt u \<le> user_debt u'"
proof (cases "get_user s (ss_user_id ss)")
  case None
  with assms show ?thesis
    by (simp add: submit_checkin_def)
next
  case (Some w)
  let ?uid = "ss_user_id ss"
  let ?ss = "if list_actions s ?uid (ss_today ss) \<noteq> [] \<and> ss_today_actions ss = []
             then ss\<lparr> ss_today_actions := list_actions s ?uid (ss_today ss) \<rparr> else ss"
  show ?thesis
  proof (cases "ss_today_actions ?ss = []")
    case True
    with assms Some show ?thesis
      by (simp add: submit_checkin_def Let_def)
  next
    case False
    define s1 where "s1 = fold (\<lambda>(action_id, c) t. set_action_completion now t action_id c)
        (map (\<lambda>a. (row_id a, checked (row_id a))) (ss_today_actions ?ss)) s"
    have u1: "db_users s1 = db_users s"
      by (simp add: s1_def fold_completion_users)
    then have g1: "get_user s1 ?uid = Some w"
      using Some by (simp add: get_user_def)
    define m where "m = int (length (filter (\<lambda>a. row_completed a = Some 0) (list_actions s1 ?uid (ss_today ?ss))))"
    define r where "r = judge_day (user_xp w) (user_streak w) (user_debt w) (user_difficulty w)
        (int (length (filter (\<lambda>a. row_completed a = Some 1) (list_actions s1 ?uid (ss_today ?ss)))))
        m
        (impacts_total fsum
          (map impact_weight (filter (\<lambda>a. row_completed a = Some 1) (list_actions s1 ?uid (ss_today ?ss)))))"
    have res: "snd (submit_checkin fsum now nid checked s ss) =
        (case r of Inl e \<Rightarrow> s1
         | Inr j \<Rightarrow> update_user_stats (upsert_daily_result now nid s1 ?uid (ss_today ?ss) j) ?uid j)"
      unfolding r_def m_def s1_def
      using Some False g1[unfolded s1_def]
      by (simp add: submit_checkin_def Let_def split: sum.split)
    have m0: "0 \<le> m"
      by (simp add: m_def)
    have w: "db_users s ?uid = Some w"
      using Some by (simp add: get_user_def)
    show ?thesis
    proof (cases r)
      case (Inl e)
      with assms show ?thesis
        by (simp add: res u1)
    next
      case (Inr j)
      have nd: "new_debt j = user_debt w + m"
        using Inr unfolding r_def by (rule judge_day_new_debt)
      show ?thesis
      proof (cases "v = ?uid")
        case True
        with assms w have "u = w" by simp
        with True w nd m0 Inr show ?thesis
          by (simp add: res update_user_stats_def u1)
      next
        case False
        with assms w Inr show ?thesis
          by (simp add: res update_user_stats_def u1)
      qed
    qed
  qed
qed

lemma actions_have_users_empty: "actions_have_users empty_db"
  by (simp add: actions_have_users_def empty_db_def)

lemma actions_have_users_create_user:
  "actions_have_users s \<Longrightarrow> actions_have_users (snd (create_user now s uid g))"
  by (auto simp: actions_have_users_def create_user_def split: option.splits)

lemma actions_have_users_upsert_user:
  "actions_have_users s \<Longrightarrow> actions_have_users (upsert_user now s uid g)"
  by (auto simp: actions_have_users_def upsert_user_def Let_def)

lemma actions_have_users_generate_today:
  "actions_have_users s \<Longrightarrow> actions_have_users (snd (generate_today w uuids day s uid))"
  by (auto simp: actions_have_users_def generate_today_def Let_def split: option.splits sum.splits)

lemma actions_have_users_generate_button:
  "actions_have_users s \<Longrightarrow> actions_have_users (snd (generate_button gen uuids s ss))"
  by (auto simp: actions_have_users_def generate_button_def get_user_def insert_actions_def Let_def
      split: option.splits)

lemma set_action_completion_user_ids:
  "map row_user_id (db_actions (set_action_completion now s aid c)) = map row_user_id (db_actions s)"
  by (simp add: set_action_completion_def comp_def if_distrib[of row_user_id])

lemma actions_have_users_set_action_completion:
  assumes "actions_have_users s"
  shows "actions_have_users (set_action_completion now s aid c)"
proof -
  have "row_user_id ` set (db_actions (set_action_completion now s aid c)) = row_user_id ` set (db_actions s)"
    using set_action_completion_user_ids[of now s aid c] by (metis set_map)
  with assms show ?thesis
    by (simp add: actions_have_users_def image_subset_iff[symmetric])
qed

lemma actions_have_users_fold_completion:
  "actions_have_users s \<Longrightarrow>
   actions_have_users (fold (\<lambda>(action_id, c) t. set_action_completion now t action_id c) updates s)"
  by (induction updates arbitrary: s) (auto simp: actions_have_users_set_action_completion)

lemma actions_have_users_cong:
  "db_users t = db_users s \<Longrightarrow> db_actions t = db_actions s \<Longrightarrow>
   actions_have_users t = actions_have_users s"
  by (simp add: actions_have_users_def)

lemma actions_have_users_submit_checkin:
  assumes "actions_have_users s"
  shows "actions_have_users (snd (submit_checkin fsum now nid checked s ss))"
proof -
  have 1: "actions_have_users (upsert_daily_result now nid t uid day j)" if "actions_have_users t" for t uid day j
    using that by (simp add: actions_have_users_def upsert_daily_result_def split: list.split)
  have 2: "actions_have_users (update_user_stats t uid j)" if "actions_have_users t" for t uid j
    using that by (auto simp: actions_have_users_def update_user_stats_def split: option.split)
  show ?thesis
    using assms
    by (auto simp: submit_checkin_def Let_def 1 2 actions_have_users_fold_completion
        split: option.split sum.split)
qed

lemma fold_guarded_completion_users:
  "db_users (fold (\<lambda>(aid, c) t. if aid \<notin> A then t else set_action_completion now t aid c) updates s)
     = db_users s"
  by (induction updates arbitrary: s) (auto simp: case_prod_beta)

lemma actions_have_users_fold_guarded:
  "actions_have_users s \<Longrightarrow>
   actions_have_users (fold (\<lambda>(aid, c) t. if aid \<notin> A then t else set_action_completion now t aid c) updates s)"
  by (induction updates arbitrary: s) (auto simp: actions_have_users_set_action_completion)

lemma actions_have_users_upsert_daily_result:
  "actions_have_users t \<Longrightarrow> actions_have_users (upsert_daily_result now nid t uid day j)"
  by (simp add: actions_have_users_def upsert_daily_result_def split: list.split)

lemma actions_have_users_update_user_stats:
  "actions_have_users t \<Longrightarrow> actions_have_users (update_user_stats t uid j)"
  by (auto simp: actions_have_users_def update_user_stats_def split: option.split)

lemma actions_have_users_checkin:
  "actions_have_users s \<Longrightarrow> actions_have_users (snd (checkin fsum now nid day s uid updates))"
  by (auto simp: checkin_def Let_def actions_have_users_upsert_daily_result
      actions_have_users_update_user_stats actions_have_users_fold_guarded
      split: option.split sum.split)

lemma checkin_debt:
  assumes "db_users s v = Some u"
  shows "\<exists>u'. db_users (snd (checkin fsum now nid day s uid updates)) v = Some u'
           \<and> user_debt u \<le> user_debt u'"
proof (cases "db_users s uid")
  case None
  with assms show ?thesis
    by (simp add: checkin_def)
next
  case (Some w)
  show ?thesis
  proof (cases "list_actions s uid day = []")
    case True
    with assms Some show ?thesis
      by (simp add: checkin_def)
  next
    case False
    define s1 where "s1 = fold (\<lambda>(aid, c) t. if aid \<notin> set (map row_id (list_actions s uid day)) then t
                                                else set_action_completion now t aid c) updates s"
    have u1: "db_users s1 = db_users s"
      by (simp add: s1_def fold_guarded_completion_users)
    define m where "m = int (length (filter (\<lambda>a. row_completed a = Some 0) (list_actions s1 uid day)))"
    define r where "r = rules_judge_day (user_xp w) (user_streak w) (user_debt w) (user_difficulty w)
        (int (length (filter (\<lambda>a. row_completed a = Some 1) (list_actions s1 uid day))))
        m
        (impacts_total fsum
          (map impact_weight (filter (\<lambda>a. row_completed a = Some 1) (list_actions s1 uid day))))"
    have res: "snd (checkin fsum now nid day s uid updates) =
        (case r of Inl e \<Rightarrow> s
         | Inr j \<Rightarrow> update_user_stats (upsert_daily_result now nid s1 uid day j) uid j)"
      using Some False
      by (simp add: checkin_def Let_def s1_def r_def m_def split: sum.split)
    have m0: "0 \<le> m"
      by (simp add: m_def)
    show ?thesis
    proof (cases r)
      case (Inl e)
      with assms show ?thesis
        by (simp add: res)
    next
      case (Inr j)
      have nd: "new_debt j = user_debt w + m"
        using Inr unfolding r_def by (rule rules_judge_day_new_debt)
      show ?thesis
      proof (cases "v = uid")
        case True
        with assms Some have "u = w" by simp
        with True Some nd m0 Inr show ?thesis
          by (simp add: res update_user_stats_def u1)
      next
        case False
        with assms Some Inr show ?thesis
          by (simp add: res update_user_stats_def u1)
      qed
    qed
  qed
qed

lemma create_user_debt:
  "db_users s v = Some u \<Longrightarrow>
   \<exists>u'. db_users (snd (create_user now s uid g)) v = Some u' \<and> user_debt u \<le> user_debt u'"
  by (auto simp: create_user_def split: option.split)

lemma generate_today_users:
  "db_users (snd (generate_today w uuids day s uid)) = db_users s"
  by (simp add: generate_today_def Let_def split: option.split sum.split)

lemma reachable_actions_have_users: "reachable s \<Longrightarrow> actions_have_users s"
proof (induction rule: reachable.induct)
  case reachable_empty
  show ?case by (rule actions_have_users_empty)
next
  case reachable_upsert_user
  then show ?case by (simp add: actions_have_users_upsert_user)
next
  case reachable_generate_button
  then show ?case by (simp add: actions_have_users_generate_button)
next
  case reachable_submit_checkin
  then show ?case by (simp add: actions_have_users_submit_checkin)
next
  case reachable_create_user
  then show ?case by (simp add: actions_have_users_create_user)
next
  case reachable_generate_today
  then show ?case by (simp add: actions_have_users_generate_today)
next
  case reachable_checkin
  then show ?case by (simp add: actions_have_users_checkin)
qed

text \<open>
  Claim C7. Actions are generated once per user and day: in every state of the database
  in which the user already has actions for the day, a generation request for that user
  and day, through the endpoint \<open>generate_today\<close> or through the button of the
  Streamlit script, leaves the database as it is and returns exactly the stored actions
  of that user and day. And whenever a request to \<open>generate_today\<close> has returned, a
  second request for the day returns the same actions, which are not none, and writes
  nothing.
\<close>

theorem generation_once_per_day:
  "(reachable s \<and> list_actions s uid day \<noteq> [] \<longrightarrow>
      generate_today w uuids day s uid = (Inr (day, list_actions s uid day), s)
    \<and> (ss_user_id ss = uid \<and> ss_today ss = day \<longrightarrow>
         generate_button gen uuids s ss =
           (Some (ss\<lparr> ss_today_actions := list_actions s uid day \<rparr>,
                  Warning ''Already generated for today. You don't get a re-roll.''), s)))
   \<and> (generate_today w uuids day s uid = (Inr (day, out), s') \<longrightarrow>
        out \<noteq> [] \<and> generate_today w' uuids' day s' uid = (Inr (day, out), s'))"
proof (intro conjI impI)
  assume a: "reachable s \<and> list_actions s uid day \<noteq> []"
  then have "actions_have_users s"
    by (simp add: reachable_actions_have_users)
  with a obtain u where u: "db_users s uid = Some u"
    using existing_user by blast
  show "generate_today w uuids day s uid = (Inr (day, list_actions s uid day), s)"
    using u a by (simp add: generate_today_existing)
  assume "ss_user_id ss = uid \<and> ss_today ss = day"
  then show "generate_button gen uuids s ss =
           (Some (ss\<lparr> ss_today_actions := list_actions s uid day \<rparr>,
                  Warning ''Already generated for today. You don't get a re-roll.''), s)"
    using u a generate_button_existing[of s ss u gen uuids] by auto
next
  assume b: "generate_today w uuids day s uid = (Inr (day, out), s')"
  from generate_today_again[OF b, of w' uuids']
  show "out \<noteq> []" and "generate_today w' uuids' day s' uid = (Inr (day, out), s')"
    by blast+
qed

lemma sample_generated_reachable: "reachable sample_generated"
  unfolding sample_generated_def
  by (intro reachable_generate_today reachable_create_user reachable_empty)

text \<open>The sample run of \<open>generate_today\<close>, evaluated: the four proposals of the
  revenue template, with the first four identifiers.\<close>

lemma sample_generated_rows:
  "map row_id (list_actions sample_generated ''founder'' ''2026-11-03'') = [''0'', ''1'', ''2'', ''3'']"
  by code_simp

lemma sample_generated_today: "list_actions sample_generated ''founder'' ''2026-11-03'' \<noteq> []"
  using sample_generated_rows by auto

lemma sample_generated_texts:
  "map text_of (db_actions sample_generated) =
     [''Contact 10 prospects (DM/email) with ONE offer. Log replies.'',
      ''Improve the offer (headline + price + guarantee). Publish it.'',
      ''Book 1 short sales call (15 min). No research-avoidance.'',
      ''Ask for money: send 1 invoice/checkout link or request a deposit.'']"
  by code_simp

lemma sample_db_tomorrow: "list_actions sample_db ''founder'' ''2026-11-04'' = []"
  by (simp add: list_actions_def sample_db_def)

lemma sample_db_user: "db_users sample_db ''founder'' \<noteq> None"
  by (simp add: sample_db_def)

text \<open>Without a key the sample user's request for a fresh day inserts the proposals of
  the heuristic generator and returns.\<close>

lemma sample_db_generates:
  "\<exists>out s'. generate_today world_no_key digits ''2026-11-04'' sample_db ''founder''
      = (Inr (''2026-11-04'', out), s')"
  by (simp add: generate_today_def Let_def sample_db_def list_actions_def
      generate_actions_no_key world_keys)

text \<open>A user created on an empty database and served once by \<open>generate_today\<close>: the
  second request, with another outcome of the external call and through either entry,
  returns the stored actions. And a first and a second request for a fresh day.\<close>

theorem generation_once_per_day_witness:
  "generate_today world_network_down digits ''2026-11-03'' sample_generated ''founder''
     = (Inr (''2026-11-03'', list_actions sample_generated ''founder'' ''2026-11-03''),
        sample_generated)
   \<and> generate_button (\<lambda>g d h. []) digits sample_generated
        \<lparr> ss_user_id = ''founder'', ss_today_actions = [], ss_today = ''2026-11-03'' \<rparr>
     = (Some (\<lparr> ss_user_id = ''founder'',
                 ss_today_actions = list_actions sample_generated ''founder'' ''2026-11-03'',
                 ss_today = ''2026-11-03'' \<rparr>,
              Warning ''Already generated for today. You don't get a re-roll.''),
        sample_generated)
   \<and> (\<exists>out s'. generate_today world_no_key digits ''2026-11-04'' sample_db ''founder''
                   = (Inr (''2026-11-04'', out), s') \<and> out \<noteq> []
        \<and> generate_today world_network_down digits ''2026-11-04'' s' ''founder''
                   = (Inr (''2026-11-04'', out), s'))"
proof (intro conjI)
  have today: "reachable sample_generated
      \<and> list_actions sample_generated ''founder'' ''2026-11-03'' \<noteq> []"
    using sample_generated_reachable sample_generated_today by simp
  note a = generation_once_per_day[THEN conjunct1, THEN mp, OF today]
  show "generate_today world_network_down digits ''2026-11-03'' sample_generated ''founder''
     = (Inr (''2026-11-03'', list_actions sample_generated ''founder'' ''2026-11-03''),
        sample_generated)"
    by (rule a[THEN conjunct1])
  show "generate_button (\<lambda>g d h. []) digits sample_generated
        \<lparr> ss_user_id = ''founder'', ss_today_actions = [], ss_today = ''2026-11-03'' \<rparr>
     = (Some (\<lparr> ss_user_id = ''founder'',
                 ss_today_actions = list_actions sample_generated ''founder'' ''2026-11-03'',
                 ss_today = ''2026-11-03'' \<rparr>,
              Warning ''Already generated for today. You don't get a re-roll.''),
        sample_generated)"
    using a[THEN conjunct2,
        of "\<lparr> ss_user_id = ''founder'', ss_today_actions = [], ss_today = ''2026-11-03'' \<rparr>"
           "\<lambda>g d h. []" digits]
    by simp
  obtain out s' where first: "generate_today world_no_key digits ''2026-11-04'' sample_db ''founder''
      = (Inr (''2026-11-04'', out), s')"
    using sample_db_generates by blast
  from generation_once_per_day[THEN conjunct2, THEN mp, OF first, of world_network_down digits] first
  show "\<exists>out s'. generate_today world_no_key digits ''2026-11-04'' sample_db ''founder''
                   = (Inr (''2026-11-04'', out), s') \<and> out \<noteq> []
        \<and> generate_today world_network_down digits ''2026-11-04'' s' ''founder''
                   = (Inr (''2026-11-04'', out), s')"
    by blast
qed

text \<open>
  Claim C6. For every input with \<open>missed \<ge> 0\<close> on which \<open>judge_day\<close> returns, it
  returns \<open>new_debt = current_debt + missed\<close>, so the new debt is never below the
  current one; and no operation lowers a stored debt: after each of the three buttons
  of the Streamlit script and each of the three writing endpoints of main.py, every user
  that was stored is still stored, with a debt that is not smaller.
\<close>

theorem debt_never_reduced:
  "(0 \<le> missed
      \<and> judge_day current_xp current_streak current_debt current_difficulty completed missed impacts_sum = Inr j \<longrightarrow>
      new_debt j = current_debt + missed \<and> current_debt \<le> new_debt j)
   \<and> (db_users s v = Some u \<longrightarrow>
        (\<exists>u'. db_users (upsert_user now s uid g) v = Some u' \<and> user_debt u \<le> user_debt u')
      \<and> (\<exists>u'. db_users (snd (generate_button gen uuids s ss)) v = Some u' \<and> user_debt u \<le> user_debt u')
      \<and> (\<exists>u'. db_users (snd (submit_checkin fsum now nid checked s ss)) v = Some u' \<and> user_debt u \<le> user_debt u')
      \<and> (\<exists>u'. db_users (snd (create_user now s uid g)) v = Some u' \<and> user_debt u \<le> user_debt u')
      \<and> (\<exists>u'. db_users (snd (generate_today w uuids day s uid)) v = Some u' \<and> user_debt u \<le> user_debt u')
      \<and> (\<exists>u'. db_users (snd (checkin fsum now nid day s uid updates)) v = Some u' \<and> user_debt u \<le> user_debt u'))"
proof (intro conjI impI)
  assume a: "0 \<le> missed
      \<and> judge_day current_xp current_streak current_debt current_difficulty completed missed impacts_sum = Inr j"
  then have "judge_day current_xp current_streak current_debt current_difficulty completed missed impacts_sum = Inr j"
    by simp
  then show "new_debt j = current_debt + missed"
    by (rule judge_day_new_debt)
  with a show "current_debt \<le> new_debt j"
    by simp
next
  assume u: "db_users s v = Some u"
  show "\<exists>u'. db_users (upsert_user now s uid g) v = Some u' \<and> user_debt u \<le> user_debt u'"
    using upsert_user_debt[OF u, of now uid g] by auto
  show "\<exists>u'. db_users (snd (generate_button gen uuids s ss)) v = Some u' \<and> user_debt u \<le> user_debt u'"
    using u by (simp add: generate_button_users)
  show "\<exists>u'. db_users (snd (submit_checkin fsum now nid checked s ss)) v = Some u' \<and> user_debt u \<le> user_debt u'"
    using u by (rule submit_checkin_debt)
  show "\<exists>u'. db_users (snd (create_user now s uid g)) v = Some u' \<and> user_debt u \<le> user_debt u'"
    using u by (rule create_user_debt)
  show "\<exists>u'. db_users (snd (generate_today w uuids day s uid)) v = Some u' \<and> user_debt u \<le> user_debt u'"
    using u by (simp add: generate_today_users)
  show "\<exists>u'. db_users (snd (checkin fsum now nid day s uid updates)) v = Some u' \<and> user_debt u \<le> user_debt u'"
    using u by (rule checkin_debt)
qed

text \<open>A check-in of the sample user with one action done, of weight 1.4, and one left:
  the base value is the double 39, \<open>judge_day\<close> returns, and the debt rises from 0
  to 1.\<close>

lemma sample_checkin_judgement:
  "\<exists>j. judge_day 0 0 0 1 1 1 (FloatN (Finite 6305039478318694 (- 52))) = Inr j"
proof -
  have "base_expr 1 (FloatN (Finite 6305039478318694 (- 52))) 1
      = Inr (FloatN (Finite 5488762045857792 (- 47)))"
    by code_simp
  then show ?thesis
    by (simp add: judge_day_def)
qed

lemma sample_checkin_debt:
  "map_option user_debt (db_users (snd (submit_checkin sample_sum ''2026-11-03T20:00:00Z'' ''r1''
      (\<lambda>i. i = ''b1'') sample_db
      \<lparr> ss_user_id = ''founder'', ss_today_actions = [], ss_today = ''2026-11-03'' \<rparr>)) ''founder'') = Some 1"
proof -
  obtain j where j: "judge_day 0 0 0 1 1 1 (FloatN (Finite 6305039478318694 (- 52))) = Inr j"
    using sample_checkin_judgement by blast
  show ?thesis
    by (simp add: submit_checkin_def get_user_def sample_db_def list_actions_def Let_def
        set_action_completion_def upsert_daily_result_def update_user_stats_def
        impacts_total_def sample_sum_def j judge_day_new_debt[OF j])
qed

text \<open>Three misses raise a debt of 1 to 4; the sample user's debt after a check-in is
  not below the 0 it was.\<close>

theorem debt_never_reduced_witness:
  "(\<exists>j. judge_day 500 4 1 2 0 3 (IntN 0) = Inr j \<and> new_debt j = 4 \<and> 1 \<le> new_debt j)
   \<and> (\<exists>u'. db_users (snd (submit_checkin sample_sum ''2026-11-03T20:00:00Z'' ''r1''
              (\<lambda>i. i = ''b1'') sample_db
              \<lparr> ss_user_id = ''founder'', ss_today_actions = [], ss_today = ''2026-11-03'' \<rparr>)) ''founder'' = Some u'
          \<and> 0 \<le> user_debt u')"
proof -
  have u: "db_users sample_db ''founder'' = Some
          \<lparr> user_created_at = ''2026-11-02T08:00:00Z'', user_goal_text = ''Get 10 paying customers'',
            user_level = 1, user_xp = 0, user_streak = 0, user_debt = 0, user_difficulty = 1 \<rparr>"
    by (simp add: sample_db_def)
  obtain j where j: "judge_day 500 4 1 2 0 3 (IntN 0) = Inr j"
    using judge_day_int_returns by blast
  note t = debt_never_reduced[of 3 500 4 1 2 0 "IntN 0" j sample_db "''founder''"]
  have a: "\<exists>j. judge_day 500 4 1 2 0 3 (IntN 0) = Inr j \<and> new_debt j = 4 \<and> 1 \<le> new_debt j"
    using t[THEN conjunct1] j by simp
  have b: "\<exists>u'. db_users (snd (submit_checkin sample_sum ''2026-11-03T20:00:00Z'' ''r1''
              (\<lambda>i. i = ''b1'') sample_db
              \<lparr> ss_user_id = ''founder'', ss_today_actions = [], ss_today = ''2026-11-03'' \<rparr>)) ''founder'' = Some u'
          \<and> 0 \<le> user_debt u'"
    using t[THEN conjunct2, THEN mp, OF u, THEN conjunct2, THEN conjunct2, THEN conjunct1] by simp
  from a b show ?thesis by blast
qed

end
